theory Spec2Isabelle
  imports Complex_Main
begin

section \<open>Errors and random streams\<close>

text \<open>
  Python exceptions are values. The message of a \<open>ValueError\<close> is kept, since the
  simulation raises one itself (no timeline bound) and NumPy raises others
  (\<open>low >= high\<close> when an empty integer range is sampled).
\<close>

datatype error = ValueError string | TypeError string | IndexError string

text \<open>
  A random generator is a tape of raw draws with a cursor. Every theorem below holds for
  every tape, hence for the tape NumPy's bit generator produces from a given seed.
  \<open>pos\<close> counts the draws made so far.
\<close>

record rng =
  tape :: "nat \<Rightarrow> nat"
  pos :: nat

definition raw_draw :: "rng \<Rightarrow> nat \<times> rng" where
  "raw_draw g = (tape g (pos g), g\<lparr>pos := Suc (pos g)\<rparr>)"

text \<open>
  \<open>Generator.integers(low, high)\<close> and the legacy \<open>np.random.randint(low, high)\<close>
  with their default 64-bit signed type: a value of the half-open range. NumPy first
  turns the range into the closed one from \<open>low\<close> to \<open>high - 1\<close> and refuses, in
  this order, a \<open>low\<close> below the least 64-bit integer, a \<open>high - 1\<close> above the
  greatest, and an empty range. The checks precede the draw, so a failed call leaves the
  generator where it was.
\<close>

definition int64_min :: int where
  "int64_min = - (2 ^ 63)"

definition int64_max :: int where
  "int64_max = 2 ^ 63 - 1"

definition rng_integers :: "int \<Rightarrow> int \<Rightarrow> rng \<Rightarrow> (error + int) \<times> rng" where
  "rng_integers low high g =
     (if low < int64_min then (Inl (ValueError ''low is out of bounds for int64''), g)
      else if high - 1 > int64_max then (Inl (ValueError ''high is out of bounds for int64''), g)
      else if low > high - 1 then (Inl (ValueError ''low >= high''), g)
      else (case raw_draw g of (r, g') \<Rightarrow> (Inr (low + int r mod (high - low)), g')))"

text \<open>
  The sum of two \<open>np.int64\<close> scalars wraps around (NumPy warns and goes on).
\<close>

definition int64_add :: "int \<Rightarrow> int \<Rightarrow> int" where
  "int64_add a b = (a + b - int64_min) mod 2 ^ 64 + int64_min"

text \<open>\<open>Generator.choice(a)\<close> on a list: one of its elements; an empty list is refused.\<close>

definition rng_choice :: "nat list \<Rightarrow> rng \<Rightarrow> (error + nat) \<times> rng" where
  "rng_choice a g =
     (if a = [] then (Inl (ValueError ''a cannot be empty''), g)
      else (case raw_draw g of (r, g') \<Rightarrow> (Inr (a ! (r mod length a)), g')))"

text \<open>\<open>np.random.rand()\<close>: a multiple of \<open>2^-53\<close> in the half-open unit interval.\<close>

definition np_random_rand :: "rng \<Rightarrow> rat \<times> rng" where
  "np_random_rand g =
     (case raw_draw g of (r, g') \<Rightarrow> (of_int (int r mod 2 ^ 53) / 2 ^ 53, g'))"

text \<open>
  \<open>np.random.default_rng(seed)\<close>: a fresh generator whose tape the bit generator
  \<open>bitgen\<close> derives from the seed, or from the operating system's entropy when the
  seed is \<open>None\<close>.
\<close>

definition default_rng :: "(nat \<Rightarrow> nat \<Rightarrow> nat) \<Rightarrow> nat \<Rightarrow> nat option \<Rightarrow> rng" where
  "default_rng bitgen entropy seed =
     \<lparr>tape = bitgen (case seed of None \<Rightarrow> entropy | Some s \<Rightarrow> s), pos = 0\<rparr>"

text \<open>
  Python's \<open>for x in xs: body\<close> over a state and a generator: the first exception
  leaves the loop, with the generator as the failing iteration left it.
\<close>

fun for_each ::
  "'x list \<Rightarrow> ('x \<Rightarrow> 's \<Rightarrow> rng \<Rightarrow> (error + 's) \<times> rng) \<Rightarrow> 's \<Rightarrow> rng \<Rightarrow> (error + 's) \<times> rng"
where
  "for_each [] body s g = (Inr s, g)"
| "for_each (x # xs) body s g =
     (case body x s g of
        (Inl e, g') \<Rightarrow> (Inl e, g')
      | (Inr s', g') \<Rightarrow> for_each xs body s' g')"

section \<open>Calendar features\<close>

text \<open>
  A timestamp is a number of whole seconds since 1970-01-01 00:00 (a Thursday), without
  time zone. Of the fields \<open>extract_time_features\<close> returns, the person uses the
  fractional hour, the weekday (0 is Monday) and the normalised date (here the day
  number). The fractional hour is a float in the source; it is compared only with the
  integer bounds of the configured intervals, and those comparisons agree with the exact
  ones, since the float lies in the same unit interval as the exact value.
\<close>

record time_features =
  hours :: "rat list"
  weekday :: "int list"
  dates :: "int list"

definition extract_time_features :: "int list \<Rightarrow> time_features" where
  "extract_time_features ts =
     \<lparr>hours = map (\<lambda>t. of_int ((t mod 86400) div 3600)
                        + of_int (((t mod 86400) mod 3600) div 60) / 60
                        + of_int ((t mod 86400) mod 60) / 3600) ts,
      weekday = map (\<lambda>t. (t div 86400 + 3) mod 7) ts,
      dates = map (\<lambda>t. t div 86400) ts\<rparr>"

section \<open>Person\<close>

text \<open>
  The cached result is the tuple \<open>(inside, sleeping, room1, windows, doors)\<close> of 0/1
  arrays. The per-day count ranges and the duration ranges are read only through their
  elements 0 and 1, so each is a pair \<open>(low, high)\<close>.
\<close>

type_synonym timeline = "int list \<times> int list \<times> int list \<times> int list \<times> int list"

record person =
  name :: string
  outside_hours_weekdays :: "(int \<times> int) list"
  outside_hours_weekend :: "(int \<times> int) list"
  sleep_hours :: "int \<times> int"
  window_open_per_day :: "int \<times> int"
  window_open_duration :: "int \<times> int"
  door_open_per_day :: "int \<times> int"
  door_open_duration :: "int \<times> int"
  room_per_day :: "int \<times> int"
  room_duration :: "int \<times> int"
  rng :: rng
  timestamps :: "int list option"
  timeline_cache :: "timeline option"

definition Person_init ::
  "(nat \<Rightarrow> nat \<Rightarrow> nat) \<Rightarrow> nat \<Rightarrow> string \<Rightarrow> (int \<times> int) list \<Rightarrow> (int \<times> int) list \<Rightarrow> int \<times> int
   \<Rightarrow> int \<times> int \<Rightarrow> int \<times> int \<Rightarrow> int \<times> int \<Rightarrow> int \<times> int \<Rightarrow> int \<times> int \<Rightarrow> int \<times> int
   \<Rightarrow> nat option \<Rightarrow> person"
where
  "Person_init bitgen entropy nm ohwd ohwe sh wpd wd dpd dd rpd rd seed =
     \<lparr>name = nm, outside_hours_weekdays = ohwd, outside_hours_weekend = ohwe,
      sleep_hours = sh, window_open_per_day = wpd, window_open_duration = wd,
      door_open_per_day = dpd, door_open_duration = dd, room_per_day = rpd,
      room_duration = rd, rng = default_rng bitgen entropy seed,
      timestamps = None, timeline_cache = None\<rparr>"

definition set_timeline :: "person \<Rightarrow> int list \<Rightarrow> person" where
  "set_timeline p ts = p\<lparr>timestamps := Some ts, timeline_cache := None\<rparr>"

definition is_outside :: "person \<Rightarrow> rat \<Rightarrow> int \<Rightarrow> bool" where
  "is_outside p hour wday =
     (let hours_list = (if wday < 5 then outside_hours_weekdays p else outside_hours_weekend p)
      in list_ex (\<lambda>(start, stop). of_int start \<le> hour \<and> hour < of_int stop) hours_list)"

definition generate_inside :: "person \<Rightarrow> time_features \<Rightarrow> int list" where
  "generate_inside p tf =
     map (\<lambda>(hour, wday). if is_outside p hour wday then 0 else 1) (zip (hours tf) (weekday tf))"

definition is_sleeping :: "int \<times> int \<Rightarrow> rat \<Rightarrow> bool" where
  "is_sleeping sh hour =
     (case sh of (start, stop) \<Rightarrow>
        (if start < stop then of_int start \<le> hour \<and> hour < of_int stop
         else hour \<ge> of_int start \<or> hour < of_int stop))"

definition generate_sleeping :: "person \<Rightarrow> time_features \<Rightarrow> int list" where
  "generate_sleeping p tf =
     map (\<lambda>hour. if is_sleeping (sleep_hours p) hour then 1 else 0) (hours tf)"

text \<open>
  \<open>_get_day_indices\<close>: the sorted distinct dates, and for each the positions holding it.
\<close>

definition get_day_indices :: "time_features \<Rightarrow> nat list list" where
  "get_day_indices tf =
     (let days = sort (remdups (dates tf))
      in map (\<lambda>day. filter (\<lambda>i. dates tf ! i = day) [0..<length (dates tf)])
           (filter (\<lambda>day. day \<in> set (dates tf)) days))"

text \<open>The indices of a day at which the person is inside and awake.\<close>

definition valid_indices :: "int list \<Rightarrow> int list \<Rightarrow> nat list \<Rightarrow> nat list" where
  "valid_indices inside sleeping day_indices =
     filter (\<lambda>i. inside ! i \<noteq> 0 \<and> \<not> sleeping ! i \<noteq> 0) day_indices"

text \<open>
  The three fills, each over \<open>range(start_idx, end_idx)\<close>. The one of room1 skips an
  index that is outside or asleep and goes on; the one of the window stops there; the
  one of the door marks every index.
\<close>

fun room1_fill :: "nat \<Rightarrow> int list \<Rightarrow> int list \<Rightarrow> nat list \<Rightarrow> int list \<Rightarrow> int list" where
  "room1_fill n inside sleeping [] room1 = room1"
| "room1_fill n inside sleeping (i # is) room1 =
     (if i \<ge> n then room1
      else room1_fill n inside sleeping is
             (if inside ! i \<noteq> 0 \<and> \<not> sleeping ! i \<noteq> 0 then room1[i := 1] else room1))"

fun window_fill :: "int list \<Rightarrow> int list \<Rightarrow> nat list \<Rightarrow> int list \<Rightarrow> int list" where
  "window_fill inside sleeping [] window_state = window_state"
| "window_fill inside sleeping (i # is) window_state =
     (if \<not> inside ! i \<noteq> 0 \<or> sleeping ! i \<noteq> 0 then window_state
      else window_fill inside sleeping is (window_state[i := 1]))"

fun door_fill :: "nat \<Rightarrow> nat list \<Rightarrow> int list \<Rightarrow> int list" where
  "door_fill n [] door_state = door_state"
| "door_fill n (i # is) door_state =
     (if i \<ge> n then door_state else door_fill n is (door_state[i := 1]))"

text \<open>
  One sampled event: nothing when the day has no valid index, else a start among the
  valid indices, a duration, and the fill up to \<open>min(start_idx + duration, day end)\<close>.
  The start (an element of an index array) and the duration (a result of
  \<open>Generator.integers\<close>) are both \<open>np.int64\<close> scalars, so their sum wraps.
\<close>

definition sample_event ::
  "int \<times> int \<Rightarrow> int list \<Rightarrow> int list \<Rightarrow> nat list \<Rightarrow> (nat list \<Rightarrow> int list \<Rightarrow> int list)
   \<Rightarrow> int list \<Rightarrow> rng \<Rightarrow> (error + int list) \<times> rng"
where
  "sample_event dur inside sleeping day_indices fill state g =
     (let valid = valid_indices inside sleeping day_indices in
      if valid = [] then (Inr state, g)
      else (case rng_choice valid g of
              (Inl e, g1) \<Rightarrow> (Inl e, g1)
            | (Inr start_idx, g1) \<Rightarrow>
                (case rng_integers (fst dur) (snd dur + 1) g1 of
                   (Inl e, g2) \<Rightarrow> (Inl e, g2)
                 | (Inr duration, g2) \<Rightarrow>
                     (let end_idx = min (int64_add (int start_idx) duration)
                                        (int (last day_indices) + 1)
                      in (Inr (fill [start_idx..<nat end_idx] state), g2)))))"

text \<open>One day: the event count, then that many events.\<close>

definition sample_day ::
  "int \<times> int \<Rightarrow> int \<times> int \<Rightarrow> int list \<Rightarrow> int list \<Rightarrow> (nat list \<Rightarrow> int list \<Rightarrow> int list)
   \<Rightarrow> nat list \<Rightarrow> int list \<Rightarrow> rng \<Rightarrow> (error + int list) \<times> rng"
where
  "sample_day per_day dur inside sleeping fill day_indices state g =
     (case rng_integers (fst per_day) (snd per_day + 1) g of
        (Inl e, g1) \<Rightarrow> (Inl e, g1)
      | (Inr n_periods, g1) \<Rightarrow>
          for_each [0..<nat n_periods]
            (\<lambda>_. sample_event dur inside sleeping day_indices fill) state g1)"

definition generate_room1 ::
  "person \<Rightarrow> time_features \<Rightarrow> int list \<Rightarrow> int list \<Rightarrow> rng \<Rightarrow> (error + int list) \<times> rng"
where
  "generate_room1 p tf inside sleeping g =
     (let n_minutes = length (hours tf); room1 = replicate n_minutes 0 in
      if n_minutes = 0 then (Inr room1, g)
      else for_each (get_day_indices tf)
             (sample_day (room_per_day p) (room_duration p) inside sleeping
                (room1_fill n_minutes inside sleeping))
             room1 g)"

definition generate_window_state ::
  "person \<Rightarrow> nat \<Rightarrow> time_features \<Rightarrow> int list \<Rightarrow> int list \<Rightarrow> rng \<Rightarrow> (error + int list) \<times> rng"
where
  "generate_window_state p n tf inside sleeping g =
     for_each (get_day_indices tf)
       (sample_day (window_open_per_day p) (window_open_duration p) inside sleeping
          (window_fill inside sleeping))
       (replicate n 0) g"

text \<open>\<open>door_state[1:] = (inside[1:] != inside[:-1])\<close>: a mark wherever presence changes.\<close>

definition door_transitions :: "nat \<Rightarrow> int list \<Rightarrow> int list" where
  "door_transitions n inside =
     map (\<lambda>i. if i = 0 then 0 else if inside ! i \<noteq> inside ! (i - 1) then 1 else 0) [0..<n]"

definition generate_door_state ::
  "person \<Rightarrow> nat \<Rightarrow> time_features \<Rightarrow> int list \<Rightarrow> int list \<Rightarrow> rng \<Rightarrow> (error + int list) \<times> rng"
where
  "generate_door_state p n tf inside sleeping g =
     for_each (get_day_indices tf)
       (sample_day (door_open_per_day p) (door_open_duration p) inside sleeping (door_fill n))
       (door_transitions n inside) g"

definition Person_generate :: "person \<Rightarrow> (error + timeline) \<times> person" where
  "Person_generate p =
     (case timeline_cache p of
        Some c \<Rightarrow> (Inr c, p)
      | None \<Rightarrow>
          (case timestamps p of
             None \<Rightarrow>
               (Inl (ValueError
                  ''Timestamps must be set using set_timeline before generating timeline.''), p)
           | Some ts \<Rightarrow>
               (let tf = extract_time_features ts;
                    inside = generate_inside p tf;
                    sleeping = generate_sleeping p tf
                in case generate_room1 p tf inside sleeping (rng p) of
                     (Inl e, g1) \<Rightarrow> (Inl e, p\<lparr>rng := g1\<rparr>)
                   | (Inr room1, g1) \<Rightarrow>
                       (case generate_window_state p (length ts) tf inside sleeping g1 of
                          (Inl e, g2) \<Rightarrow> (Inl e, p\<lparr>rng := g2\<rparr>)
                        | (Inr windows, g2) \<Rightarrow>
                            (case generate_door_state p (length ts) tf inside sleeping g2 of
                               (Inl e, g3) \<Rightarrow> (Inl e, p\<lparr>rng := g3\<rparr>)
                             | (Inr doors, g3) \<Rightarrow>
                                 (Inr (inside, sleeping, room1, windows, doors),
                                  p\<lparr>rng := g3,
                                    timeline_cache :=
                                      Some (inside, sleeping, room1, windows, doors)\<rparr>))))))"

definition get_room1_state :: "person \<Rightarrow> int list option" where
  "get_room1_state p =
     (case timeline_cache p of
        Some (inside, sleeping, room1, windows, doors) \<Rightarrow> Some room1
      | None \<Rightarrow> None)"

definition get_window_state :: "person \<Rightarrow> int list option" where
  "get_window_state p =
     (case timeline_cache p of
        Some (inside, sleeping, room1, windows, doors) \<Rightarrow> Some windows
      | None \<Rightarrow> None)"

definition get_door_state :: "person \<Rightarrow> int list option" where
  "get_door_state p =
     (case timeline_cache p of
        Some (inside, sleeping, room1, windows, doors) \<Rightarrow> Some doors
      | None \<Rightarrow> None)"

text \<open>
  A state array is confined when every index it marks is one at which the person is
  inside and awake.
\<close>

definition confined :: "int list \<Rightarrow> int list \<Rightarrow> int list \<Rightarrow> bool" where
  "confined inside sleeping state \<longleftrightarrow>
     (\<forall>i<length state. state ! i \<noteq> 0 \<longrightarrow> inside ! i \<noteq> 0 \<and> sleeping ! i = 0)"

text \<open>
  A configured range lies within the 64-bit integers when both its bounds do; the person
  has a valid index when it is inside and awake somewhere on the axis.
\<close>

definition in_int64 :: "int \<times> int \<Rightarrow> bool" where
  "in_int64 r \<longleftrightarrow> int64_min \<le> fst r \<and> snd r \<le> int64_max"

definition has_valid_index :: "int list \<Rightarrow> int list \<Rightarrow> nat \<Rightarrow> bool" where
  "has_valid_index inside sleeping n \<longleftrightarrow>
     list_ex (\<lambda>i. inside ! i \<noteq> 0 \<and> sleeping ! i = 0) [0..<n]"

text \<open>A state array keeps the marks of another when it is 1 wherever that one is.\<close>

definition keeps_marks :: "int list \<Rightarrow> int list \<Rightarrow> bool" where
  "keeps_marks marks state \<longleftrightarrow>
     length state = length marks \<and> (\<forall>i<length marks. marks ! i = 1 \<longrightarrow> state ! i = 1)"

section \<open>Objects and the process-wide generator\<close>

text \<open>
  Persons are objects held by reference: the apartment keeps the references it was given
  and reads the persons as they are when it is asked. The world is the store of person
  objects, by address, and the state of NumPy's legacy global generator, which
  \<open>np.random.seed\<close>, \<open>np.random.rand\<close> and \<open>np.random.randint\<close> work on.
\<close>

record world =
  heap :: "nat \<Rightarrow> person"
  np_random :: rng

definition np_random_seed :: "(nat \<Rightarrow> nat \<Rightarrow> nat) \<Rightarrow> nat \<Rightarrow> world \<Rightarrow> world" where
  "np_random_seed bitgen s w = w\<lparr>np_random := \<lparr>tape = bitgen s, pos = 0\<rparr>\<rparr>"

text \<open>The calls a program makes on the objects of the world, and their effect on it.\<close>

datatype call =
  Generate nat
| SetTimeline nat "int list"
| SeedGlobal nat

fun exec :: "(nat \<Rightarrow> nat \<Rightarrow> nat) \<Rightarrow> call \<Rightarrow> world \<Rightarrow> world" where
  "exec bitgen (Generate a) w = w\<lparr>heap := (heap w)(a := snd (Person_generate (heap w a)))\<rparr>"
| "exec bitgen (SetTimeline a ts) w = w\<lparr>heap := (heap w)(a := set_timeline (heap w a) ts)\<rparr>"
| "exec bitgen (SeedGlobal s) w = np_random_seed bitgen s w"

fun target :: "call \<Rightarrow> nat option" where
  "target (Generate a) = Some a"
| "target (SetTimeline a ts) = Some a"
| "target (SeedGlobal s) = None"

definition run :: "(nat \<Rightarrow> nat \<Rightarrow> nat) \<Rightarrow> call list \<Rightarrow> world \<Rightarrow> world" where
  "run bitgen calls w = fold (exec bitgen) calls w"

section \<open>NumPy arrays of the aggregation\<close>

text \<open>
  An array is numeric (integers, or booleans written 0 and 1) or holds Python objects,
  which here are numbers or \<open>None\<close>. \<open>np.logical_or\<close> of two numeric arrays is the
  boolean array of the elementwise disjunction. When an operand is \<open>None\<close>, NumPy makes
  it an object array and applies Python's \<open>a or b\<close> elementwise: the left operand when
  it is truthy, else the right one. \<open>astype(int)\<close> leaves numbers as they are and
  refuses \<open>None\<close>. Operands of different lengths are broadcast when one has length 1
  and refused otherwise.
\<close>

datatype ndarray = NumArr "int list" | ObjArr "int option list"

definition broadcast2 :: "('a \<Rightarrow> 'b \<Rightarrow> 'c) \<Rightarrow> 'a list \<Rightarrow> 'b list \<Rightarrow> error + 'c list" where
  "broadcast2 f xs ys =
     (if length xs = length ys then Inr (map2 f xs ys)
      else if length ys = 1 then Inr (map (\<lambda>x. f x (hd ys)) xs)
      else if length xs = 1 then Inr (map (f (hd xs)) ys)
      else Inl (ValueError ''operands could not be broadcast together''))"

definition bool_or :: "int \<Rightarrow> int \<Rightarrow> int" where
  "bool_or a b = (if a \<noteq> 0 \<or> b \<noteq> 0 then 1 else 0)"

definition py_or :: "int option \<Rightarrow> int option \<Rightarrow> int option" where
  "py_or a b = (case a of Some v \<Rightarrow> (if v \<noteq> 0 then Some v else b) | None \<Rightarrow> b)"

definition np_logical_or :: "ndarray \<Rightarrow> int list option \<Rightarrow> error + ndarray" where
  "np_logical_or state person_state =
     (case (state, person_state) of
        (NumArr xs, Some ys) \<Rightarrow> map_sum id NumArr (broadcast2 bool_or xs ys)
      | (NumArr xs, None) \<Rightarrow> Inr (ObjArr (map (\<lambda>x. py_or (Some x) None) xs))
      | (ObjArr xs, Some ys) \<Rightarrow> map_sum id ObjArr (broadcast2 (\<lambda>x y. py_or x (Some y)) xs ys)
      | (ObjArr xs, None) \<Rightarrow> Inr (ObjArr (map (\<lambda>x. py_or x None) xs)))"

definition astype_int :: "ndarray \<Rightarrow> error + int list" where
  "astype_int a =
     (case a of
        NumArr xs \<Rightarrow> Inr xs
      | ObjArr xs \<Rightarrow>
          (if None \<in> set xs then Inl (TypeError ''int() argument must be a number, not NoneType'')
           else Inr (map the xs)))"

text \<open>
  Python indexing and slicing of a one-dimensional array: a negative index counts from
  the end, an index out of range raises, and the bounds of a slice are clipped.
\<close>

definition py_getitem :: "int list \<Rightarrow> int \<Rightarrow> error + int" where
  "py_getitem xs i =
     (if 0 \<le> i \<and> i < int (length xs) then Inr (xs ! nat i)
      else if i < 0 \<and> - int (length xs) \<le> i then Inr (xs ! nat (int (length xs) + i))
      else Inl (IndexError ''index is out of bounds''))"

definition py_slice_index :: "nat \<Rightarrow> int \<Rightarrow> nat" where
  "py_slice_index n k = (if k < 0 then nat (max 0 (int n + k)) else nat (min k (int n)))"

definition slice_assign :: "int list \<Rightarrow> int \<Rightarrow> int \<Rightarrow> int \<Rightarrow> int list" where
  "slice_assign xs lo hi v =
     map (\<lambda>k. if py_slice_index (length xs) lo \<le> k \<and> k < py_slice_index (length xs) hi
              then v else xs ! k)
       [0..<length xs]"

section \<open>Apartment\<close>

record apartment =
  timestamps :: "int list"
  persons :: "nat list"
  prob_movement :: rat
  min_duration :: int
  max_duration :: int
  seed :: "nat option"
  motion_state :: "int list option"

definition Apartment_init ::
  "(nat \<Rightarrow> nat \<Rightarrow> nat) \<Rightarrow> int list \<Rightarrow> nat list \<Rightarrow> rat \<Rightarrow> int \<Rightarrow> int \<Rightarrow> nat option \<Rightarrow> world
   \<Rightarrow> apartment \<times> world"
where
  "Apartment_init bitgen ts ps prob lo hi sd w =
     (\<lparr>timestamps = ts, persons = ps, prob_movement = prob, min_duration = lo,
       max_duration = hi, seed = sd, motion_state = None\<rparr>,
      (case sd of None \<Rightarrow> w | Some s \<Rightarrow> np_random_seed bitgen s w))"

fun aggregate_loop ::
  "(person \<Rightarrow> int list option) \<Rightarrow> person list \<Rightarrow> ndarray \<Rightarrow> error + ndarray"
where
  "aggregate_loop state_func [] state = Inr state"
| "aggregate_loop state_func (person # rest) state =
     (case np_logical_or state (state_func person) of
        Inl e \<Rightarrow> Inl e
      | Inr state' \<Rightarrow> aggregate_loop state_func rest state')"

definition aggregate_person_state ::
  "apartment \<Rightarrow> world \<Rightarrow> (person \<Rightarrow> int list option) \<Rightarrow> error + int list"
where
  "aggregate_person_state apt w state_func =
     (case aggregate_loop state_func (map (heap w) (persons apt))
             (NumArr (replicate (length (timestamps apt)) 0)) of
        Inl e \<Rightarrow> Inl e
      | Inr state \<Rightarrow> astype_int state)"

definition get_window :: "apartment \<Rightarrow> world \<Rightarrow> error + int list" where
  "get_window apt w = aggregate_person_state apt w get_window_state"

definition get_door :: "apartment \<Rightarrow> world \<Rightarrow> error + int list" where
  "get_door apt w = aggregate_person_state apt w get_door_state"

definition get_motion :: "apartment \<Rightarrow> int list option" where
  "get_motion apt = motion_state apt"

text \<open>
  The cursor loop of \<open>_simulate_person_motion\<close>. It need not end (a drawn duration
  of zero leaves the cursor where it is), so it is a partial function and not returning
  is the value \<open>None\<close>. \<open>bursts\<close> is a history variable that the source does not
  have: it records, in order, the bounds \<open>(i, end_idx)\<close> of every slice the loop marks.
\<close>

partial_function (option) motion_loop ::
  "rat \<Rightarrow> int \<Rightarrow> int \<Rightarrow> nat \<Rightarrow> int list option \<Rightarrow> int \<Rightarrow> int list \<Rightarrow> (int \<times> int) list \<Rightarrow> rng
   \<Rightarrow> ((error + int list \<times> (int \<times> int) list) \<times> rng) option"
where
  "motion_loop prob lo hi n room1_state i person_motion bursts g =
     (if i < int n then
        (case room1_state of
           None \<Rightarrow> Some (Inl (TypeError ''NoneType object is not subscriptable''), g)
         | Some r1 \<Rightarrow>
             (case py_getitem r1 i of
                Inl e \<Rightarrow> Some (Inl e, g)
              | Inr v \<Rightarrow>
                  (if v > 0 then
                     (case np_random_rand g of
                        (u, g1) \<Rightarrow>
                          (if u < prob then
                             (case rng_integers lo (hi + 1) g1 of
                                (Inl e, g2) \<Rightarrow> Some (Inl e, g2)
                              | (Inr duration, g2) \<Rightarrow>
                                  motion_loop prob lo hi n room1_state
                                    (min (i + duration) (int n))
                                    (slice_assign person_motion i (min (i + duration) (int n)) 1)
                                    (bursts @ [(i, min (i + duration) (int n))]) g2)
                           else motion_loop prob lo hi n room1_state (i + 1) person_motion
                                  bursts g1))
                   else motion_loop prob lo hi n room1_state (i + 1) person_motion bursts g)))
      else Some (Inr (person_motion, bursts), g))"

declare motion_loop.simps [code]

definition simulate_person_motion ::
  "apartment \<Rightarrow> person \<Rightarrow> rng \<Rightarrow> ((error + int list \<times> (int \<times> int) list) \<times> rng) option"
where
  "simulate_person_motion apt person g =
     motion_loop (prob_movement apt) (min_duration apt) (max_duration apt)
       (length (timestamps apt)) (get_room1_state person) 0
       (replicate (length (timestamps apt)) 0) [] g"

fun motion_over_persons ::
  "apartment \<Rightarrow> person list \<Rightarrow> int list \<Rightarrow> rng \<Rightarrow> ((error + int list) \<times> rng) option"
where
  "motion_over_persons apt [] motion g = Some (Inr motion, g)"
| "motion_over_persons apt (person # rest) motion g =
     (case simulate_person_motion apt person g of
        None \<Rightarrow> None
      | Some (Inl e, g') \<Rightarrow> Some (Inl e, g')
      | Some (Inr (person_motion, bursts), g') \<Rightarrow>
          (case broadcast2 bool_or motion person_motion of
             Inl e \<Rightarrow> Some (Inl e, g')
           | Inr motion' \<Rightarrow> motion_over_persons apt rest motion' g'))"

definition generate_motion :: "apartment \<Rightarrow> world \<Rightarrow> ((error + int list) \<times> rng) option" where
  "generate_motion apt w =
     motion_over_persons apt (map (heap w) (persons apt))
       (replicate (length (timestamps apt)) 0) (np_random w)"

definition Apartment_generate ::
  "apartment \<Rightarrow> world \<Rightarrow> ((error + unit) \<times> apartment \<times> world) option"
where
  "Apartment_generate apt w =
     (case generate_motion apt w of
        None \<Rightarrow> None
      | Some (Inl e, g) \<Rightarrow> Some (Inl e, apt, w\<lparr>np_random := g\<rparr>)
      | Some (Inr motion, g) \<Rightarrow>
          Some (Inr (), apt\<lparr>motion_state := Some motion\<rparr>, w\<lparr>np_random := g\<rparr>))"

text \<open>
  What the bursts of one pass are held to: each is a span \<open>(s, e)\<close> inside the
  axis, no longer than \<open>hi\<close>, starting where room1 is set, and each ends before the
  next starts. The motion array marks the bursts when it is 1 exactly on their spans.
  \<open>pass_inv\<close> is what the cursor loop maintains.
\<close>

definition bursts_ok :: "int \<Rightarrow> nat \<Rightarrow> int list \<Rightarrow> (int \<times> int) list \<Rightarrow> bool" where
  "bursts_ok hi n room1 bursts \<longleftrightarrow>
     (\<forall>(s, e)\<in>set bursts.
        0 \<le> s \<and> s \<le> e \<and> e \<le> int n \<and> e - s \<le> hi \<and> nat s < length room1 \<and> room1 ! nat s \<noteq> 0)
     \<and> sorted_wrt (\<lambda>b b'. snd b \<le> fst b') bursts"

definition marks_bursts :: "nat \<Rightarrow> int list \<Rightarrow> (int \<times> int) list \<Rightarrow> bool" where
  "marks_bursts n person_motion bursts \<longleftrightarrow>
     length person_motion = n
     \<and> (\<forall>k<n. person_motion ! k
                 = (if \<exists>(s, e)\<in>set bursts. s \<le> int k \<and> int k < e then 1 else 0))"

definition pass_inv ::
  "int \<Rightarrow> nat \<Rightarrow> int list \<Rightarrow> int \<Rightarrow> int list \<Rightarrow> (int \<times> int) list \<Rightarrow> bool"
where
  "pass_inv hi n room1 i person_motion bursts \<longleftrightarrow>
     0 \<le> i \<and> i \<le> int n \<and> bursts_ok hi n room1 bursts \<and> marks_bursts n person_motion bursts
     \<and> (\<forall>b\<in>set bursts. snd b \<le> i)"

section \<open>Concrete runs\<close>

text \<open>
  A bit generator for the examples, and a person with the outside hours and sleep hours
  of the end-to-end scenario, one event of each kind per day. \<open>morning_axis\<close> is
  08:00, 08:30, 09:00 and 09:30 of Wednesday 2025-01-01.
\<close>

definition counting_bitgen :: "nat \<Rightarrow> nat \<Rightarrow> nat" where
  "counting_bitgen s k = s + k"

definition alice :: person where
  "alice = Person_init counting_bitgen 0 ''Alice'' [(9, 17)] [] (23, 7)
             (1, 1) (1, 2) (1, 1) (1, 3) (1, 1) (1, 2) (Some 7)"

definition morning_axis :: "int list" where
  "morning_axis = map (\<lambda>k. 1735689600 + 28800 + 1800 * int k) [0..<4]"

text \<open>
  A person whose sleep interval starts and ends at the same hour, with no event of any
  kind, at noon of 2025-01-01.
\<close>

definition bob :: person where
  "bob = Person_init counting_bitgen 0 ''Bob'' [] [] (5, 5)
           (0, 0) (1, 1) (0, 0) (1, 1) (0, 0) (1, 1) (Some 1)"

definition noon_axis :: "int list" where
  "noon_axis = [1735689600 + 43200]"

text \<open>
  A person whose room duration range has its bounds the wrong way round, \<open>(5, 2)\<close>,
  and who has no event of any kind.
\<close>

definition carol :: person where
  "carol = Person_init counting_bitgen 0 ''Carol'' [] [] (23, 6)
           (0, 0) (1, 1) (0, 0) (1, 1) (0, 0) (5, 2) (Some 1)"

text \<open>
  A person with one door event a day, of three indices, and no room or window event.
  On the morning axis the stream of seed 0 starts the event at 08:30.
\<close>

definition dora :: person where
  "dora = Person_init counting_bitgen 0 ''Dora'' [(9, 17)] [] (23, 7)
            (0, 0) (1, 2) (1, 1) (3, 3) (0, 0) (1, 2) (Some 0)"

text \<open>
  The axis of the end-to-end scenario: the 1440 minutes of the day with number \<open>day\<close>
  (days since 1970-01-01; 20089 is Wednesday 2025-01-01).
\<close>

definition scenario_axis :: "int \<Rightarrow> int list" where
  "scenario_axis day = map (\<lambda>k. 86400 * day + 60 * int k) [0..<1440]"

text \<open>
  A second person with the same habits as \<open>alice\<close>, a third with her configuration
  and seed under another name, and a home of three person objects: at address 0 Alice
  and at address 1 Alma, both after \<open>generate()\<close> on \<open>morning_axis\<close>; everywhere
  else Alice as constructed, with no timeline. \<open>flat\<close> is the apartment of the
  first two.
\<close>

definition alma :: person where
  "alma = Person_init counting_bitgen 0 ''Alma'' [(9, 17)] [] (23, 7)
             (1, 1) (2, 2) (1, 1) (1, 3) (1, 1) (1, 2) (Some 8)"

definition alix :: person where
  "alix = Person_init counting_bitgen 3 ''Alix'' [(9, 17)] [] (23, 7)
             (1, 1) (1, 2) (1, 1) (1, 3) (1, 1) (1, 2) (Some 7)"

definition shared_home :: world where
  "shared_home =
     \<lparr>heap = (\<lambda>a. if a = 0 then snd (Person_generate (set_timeline alice morning_axis))
                  else if a = 1 then snd (Person_generate (set_timeline alma morning_axis))
                  else alice),
      np_random = \<lparr>tape = (\<lambda>k. if k = 3 then 0 else 7), pos = 0\<rparr>\<rparr>"

definition flat :: apartment where
  "flat = fst (Apartment_init counting_bitgen morning_axis [0, 1] 1 1 2 None shared_home)"

text \<open>
  A home before anyone has generated: Alice at address 0 and Alix at address 1, both
  bound to \<open>morning_axis\<close>, and Alma elsewhere, unbound.
\<close>

definition fresh_home :: world where
  "fresh_home =
     \<lparr>heap = (\<lambda>a. if a = 0 then set_timeline alice morning_axis
                  else if a = 1 then set_timeline alix morning_axis
                  else alma),
      np_random = \<lparr>tape = counting_bitgen 0, pos = 0\<rparr>\<rparr>"

text \<open>
  A person who spends the five minutes from 08:00 in the room, and an apartment whose
  motion durations range from -3 to 4.
\<close>

definition constant_bitgen :: "nat \<Rightarrow> nat \<Rightarrow> nat" where
  "constant_bitgen s k = s"

definition homebody :: person where
  "homebody = Person_init constant_bitgen 0 ''Hugo'' [] [] (23, 6)
                (1, 1) (1, 1) (1, 1) (1, 1) (1, 1) (5, 5) (Some 0)"

definition five_minutes :: "int list" where
  "five_minutes = map (\<lambda>k. 1735689600 + 28800 + 60 * int k) [0..<5]"

definition jumpy_home :: world where
  "jumpy_home =
     \<lparr>heap = (\<lambda>a. snd (Person_generate (set_timeline homebody five_minutes))),
      np_random = \<lparr>tape = (\<lambda>k. if k = 3 then 0 else 7), pos = 0\<rparr>\<rparr>"

definition jumpy :: apartment where
  "jumpy = fst (Apartment_init constant_bitgen five_minutes [0] 1 (- 3) 4 None jumpy_home)"

section \<open>Loops and invariants\<close>

lemma for_each_invariant:
  assumes "for_each xs body s g = (Inr s', g')"
    and "P s"
    and "\<And>x t h t' h'. x \<in> set xs \<Longrightarrow> P t \<Longrightarrow> body x t h = (Inr t', h') \<Longrightarrow> P t'"
  shows "P s'"
  using assms
proof (induction xs arbitrary: s g)
  case Nil
  then show ?case by simp
next
  case (Cons x xs)
  obtain r h where b: "body x s g = (r, h)" by (cases "body x s g")
  show ?case
  proof (cases r)
    case (Inl e)
    with Cons.prems(1) b show ?thesis by simp
  next
    case (Inr t)
    with Cons.prems(1) b have rest: "for_each xs body t h = (Inr s', g')" by simp
    have "P t" using Cons.prems(3)[of x s g t h] Cons.prems(2) b Inr by simp
    moreover have "\<And>y u k u' k'. y \<in> set xs \<Longrightarrow> P u \<Longrightarrow> body y u k = (Inr u', k') \<Longrightarrow> P u'"
      using Cons.prems(3) by (meson list.set_intros(2))
    ultimately show ?thesis using Cons.IH[OF rest] by blast
  qed
qed

lemma sample_event_invariant:
  assumes "sample_event dur inside sleeping day_indices fill state g = (Inr state', g')"
    and "P state"
    and "\<And>is t. P t \<Longrightarrow> P (fill is t)"
  shows "P state'"
  using assms
  by (auto simp: sample_event_def Let_def split: if_splits prod.splits sum.splits)

lemma sample_day_invariant:
  assumes "sample_day per_day dur inside sleeping fill day_indices state g = (Inr state', g')"
    and "P state"
    and "\<And>is t. P t \<Longrightarrow> P (fill is t)"
  shows "P state'"
proof -
  obtain n_periods g1 where
    loop: "for_each [0..<nat n_periods] (\<lambda>_. sample_event dur inside sleeping day_indices fill)
             state g1 = (Inr state', g')"
    using assms(1) by (auto simp: sample_day_def split: prod.splits sum.splits)
  show ?thesis
    by (rule for_each_invariant[where P = P, OF loop assms(2)])
       (rule sample_event_invariant[where P = P, OF _ _ assms(3)])
qed

lemma sample_days_invariant:
  assumes "for_each days (sample_day per_day dur inside sleeping fill) state g = (Inr state', g')"
    and "P state"
    and "\<And>is t. P t \<Longrightarrow> P (fill is t)"
  shows "P state'"
  by (rule for_each_invariant[where P = P, OF assms(1,2)])
     (rule sample_day_invariant[where P = P, OF _ _ assms(3)])

lemma hours_length [simp]: "length (hours (extract_time_features ts)) = length ts"
  and weekday_length [simp]: "length (weekday (extract_time_features ts)) = length ts"
  and dates_length [simp]: "length (dates (extract_time_features ts)) = length ts"
  by (simp_all add: extract_time_features_def)

lemma generate_inside_length [simp]:
  "length (generate_inside p (extract_time_features ts)) = length ts"
  by (simp add: generate_inside_def)

lemma generate_sleeping_length [simp]:
  "length (generate_sleeping p (extract_time_features ts)) = length ts"
  by (simp add: generate_sleeping_def)

lemma window_fill_length [simp]: "length (window_fill inside sleeping is state) = length state"
  by (induction "is" arbitrary: state) auto

lemma room1_fill_length [simp]: "length (room1_fill n inside sleeping is state) = length state"
  by (induction "is" arbitrary: state) auto

lemma door_fill_length [simp]: "length (door_fill n is state) = length state"
  by (induction "is" arbitrary: state) auto

lemma generate_inside_values:
  "i < length (generate_inside p tf) \<Longrightarrow> generate_inside p tf ! i \<noteq> 0
   \<Longrightarrow> generate_inside p tf ! i = 1"
  by (auto simp: generate_inside_def split: prod.splits if_splits)

text \<open>What a first \<open>generate()\<close> on a person without cache computed, stage by stage.\<close>

lemma Person_generate_fresh:
  assumes "timeline_cache p = None"
    and "fst (Person_generate p) = Inr (inside, sleeping, room1, windows, doors)"
  obtains ts g1 g2 g3 where
    "person.timestamps p = Some ts"
    "inside = generate_inside p (extract_time_features ts)"
    "sleeping = generate_sleeping p (extract_time_features ts)"
    "generate_room1 p (extract_time_features ts) inside sleeping (rng p) = (Inr room1, g1)"
    "generate_window_state p (length ts) (extract_time_features ts) inside sleeping g1
       = (Inr windows, g2)"
    "generate_door_state p (length ts) (extract_time_features ts) inside sleeping g2
       = (Inr doors, g3)"
    "snd (Person_generate p)
       = p\<lparr>rng := g3, timeline_cache := Some (inside, sleeping, room1, windows, doors)\<rparr>"
  using assms
  by (auto simp: Person_generate_def Let_def split: option.splits prod.splits sum.splits)

section \<open>Confinement of room and window events\<close>

lemma confined_update:
  "confined inside sleeping state \<Longrightarrow> inside ! i \<noteq> 0 \<Longrightarrow> sleeping ! i = 0
   \<Longrightarrow> confined inside sleeping (state[i := 1])"
  by (cases "i < length state") (auto simp: confined_def nth_list_update)

lemma confined_zeros: "confined inside sleeping (replicate n 0)"
  by (simp add: confined_def)

lemma window_fill_confined:
  "confined inside sleeping state
   \<Longrightarrow> confined inside sleeping (window_fill inside sleeping is state)"
  by (induction "is" arbitrary: state) (auto simp: confined_update)

lemma room1_fill_confined:
  "confined inside sleeping state
   \<Longrightarrow> confined inside sleeping (room1_fill n inside sleeping is state)"
  by (induction "is" arbitrary: state) (auto simp: confined_update)

lemma generate_window_state_confined:
  assumes "generate_window_state p n tf inside sleeping g = (Inr windows, g')"
  shows "confined inside sleeping windows"
  using assms unfolding generate_window_state_def
  by (rule sample_days_invariant) (simp_all add: confined_zeros window_fill_confined)

lemma generate_window_state_length:
  assumes "generate_window_state p n tf inside sleeping g = (Inr windows, g')"
  shows "length windows = n"
  using assms unfolding generate_window_state_def
  by (rule sample_days_invariant) simp_all

lemma generate_room1_confined:
  assumes "generate_room1 p tf inside sleeping g = (Inr room1, g')"
  shows "confined inside sleeping room1"
proof (cases "length (hours tf) = 0")
  case True
  with assms show ?thesis by (auto simp: generate_room1_def confined_def)
next
  case False
  with assms have
    "for_each (get_day_indices tf)
       (sample_day (room_per_day p) (room_duration p) inside sleeping
          (room1_fill (length (hours tf)) inside sleeping))
       (replicate (length (hours tf)) 0) g = (Inr room1, g')"
    by (simp add: generate_room1_def Let_def)
  then show ?thesis
    by (rule sample_days_invariant) (simp_all add: confined_zeros room1_fill_confined)
qed

text \<open>
  The window fill over \<open>range(a, b)\<close> marks exactly the indices before the first one
  that is outside or asleep.
\<close>

lemma window_fill_range:
  "i < length state \<Longrightarrow>
   window_fill inside sleeping [a..<b] state ! i =
     (if a \<le> i \<and> i < b \<and> (\<forall>j. a \<le> j \<and> j \<le> i \<longrightarrow> inside ! j \<noteq> 0 \<and> sleeping ! j = 0)
      then 1 else state ! i)"
proof (induction "b - a" arbitrary: a state)
  case 0
  then show ?case by auto
next
  case (Suc k)
  then have ab: "a < b" and k: "k = b - Suc a" by auto
  have upt: "[a..<b] = a # [Suc a..<b]" using ab by (simp add: upt_conv_Cons)
  show ?case
  proof (cases "inside ! a \<noteq> 0 \<and> sleeping ! a = 0")
    case False
    then show ?thesis using upt by auto
  next
    case True
    have len: "i < length (state[a := 1])" using Suc.prems by simp
    have step: "window_fill inside sleeping [a..<b] state
                  = window_fill inside sleeping [Suc a..<b] (state[a := 1])"
      using True upt by simp
    show ?thesis
    proof (cases "i = a")
      case True
      with Suc.hyps(1)[OF k len] step \<open>inside ! a \<noteq> 0 \<and> sleeping ! a = 0\<close> ab Suc.prems
      show ?thesis by auto
    next
      case False
      have "(\<forall>j. Suc a \<le> j \<and> j \<le> i \<longrightarrow> inside ! j \<noteq> 0 \<and> sleeping ! j = 0)
            \<longleftrightarrow> (\<forall>j. a \<le> j \<and> j \<le> i \<longrightarrow> inside ! j \<noteq> 0 \<and> sleeping ! j = 0)" if "a \<le> i"
        using True by (metis Suc_leI Suc_leD le_neq_implies_less)
      with Suc.hyps(1)[OF k len] step False show ?thesis
        by (auto simp: nth_list_update)
    qed
  qed
qed

text \<open>
  Claim C1. Whatever the timeline and the configuration, an index at which the window
  array of a first \<open>generate()\<close> is 1 is one at which the person is inside
  (\<open>inside = 1\<close>) and awake (\<open>sleeping = 0\<close>); and the fill of one event over
  \<open>range(a, b)\<close> marks an index exactly when no index from \<open>a\<close> up to it violates
  that predicate: it stops at the first violation and marks nothing beyond it.
\<close>

theorem window_open_only_inside_and_awake:
  "(timeline_cache p = None \<longrightarrow>
    fst (Person_generate p) = Inr (inside, sleeping, room1, windows, doors) \<longrightarrow>
      (\<forall>i<length windows. windows ! i = 1 \<longrightarrow> inside ! i = 1 \<and> sleeping ! i = 0))
   \<and> (\<forall>i<length state.
        window_fill inside sleeping [a..<b] state ! i =
          (if a \<le> i \<and> i < b \<and> (\<forall>j. a \<le> j \<and> j \<le> i \<longrightarrow> inside ! j \<noteq> 0 \<and> sleeping ! j = 0)
           then 1 else state ! i))"
proof (rule conjI)
  show "timeline_cache p = None \<longrightarrow>
    fst (Person_generate p) = Inr (inside, sleeping, room1, windows, doors) \<longrightarrow>
      (\<forall>i<length windows. windows ! i = 1 \<longrightarrow> inside ! i = 1 \<and> sleeping ! i = 0)"
  proof (intro impI allI)
    fix i
    assume fresh: "timeline_cache p = None"
      and gen: "fst (Person_generate p) = Inr (inside, sleeping, room1, windows, doors)"
      and i: "i < length windows" and one: "windows ! i = 1"
    from fresh gen obtain ts g1 g2 where
      ins: "inside = generate_inside p (extract_time_features ts)"
      and win: "generate_window_state p (length ts) (extract_time_features ts) inside sleeping g1
                  = (Inr windows, g2)"
      by (rule Person_generate_fresh)
    have len: "length windows = length ts"
      using win by (rule generate_window_state_length)
    have "confined inside sleeping windows"
      using win by (rule generate_window_state_confined)
    with i one have v: "inside ! i \<noteq> 0" "sleeping ! i = 0"
      by (auto simp: confined_def)
    from v(1) ins i len have "inside ! i = 1"
      using generate_inside_values[of i p "extract_time_features ts"] by simp
    with v(2) show "inside ! i = 1 \<and> sleeping ! i = 0" by simp
  qed
next
  show "\<forall>i<length state.
        window_fill inside sleeping [a..<b] state ! i =
          (if a \<le> i \<and> i < b \<and> (\<forall>j. a \<le> j \<and> j \<le> i \<longrightarrow> inside ! j \<noteq> 0 \<and> sleeping ! j = 0)
           then 1 else state ! i)"
    by (intro allI impI) (rule window_fill_range)
qed

theorem window_open_only_inside_and_awake_witness:
  "timeline_cache (set_timeline alice morning_axis) = None
   \<and> fst (Person_generate (set_timeline alice morning_axis))
       = Inr ([1, 1, 0, 0], [0, 0, 0, 0], [1, 1, 0, 0], [0, 1, 0, 0], [1, 0, 1, 0])
   \<and> (1::nat) < length [0, 1, 0, 0 :: int] \<and> [0, 1, 0, 0 :: int] ! 1 = 1
   \<and> [1, 1, 0, 0 :: int] ! 1 = 1 \<and> [0, 0, 0, 0 :: int] ! 1 = 0
   \<and> (2::nat) < length [0, 0, 0, 0 :: int]
   \<and> window_fill [1, 1, 0, 0] [0, 0, 0, 0] [0..<4] [0, 0, 0, 0] ! 2 = 0"
proof -
  have fresh: "timeline_cache (set_timeline alice morning_axis) = None"
    by (simp add: set_timeline_def)
  have gen: "fst (Person_generate (set_timeline alice morning_axis))
       = Inr ([1, 1, 0, 0], [0, 0, 0, 0], [1, 1, 0, 0], [0, 1, 0, 0], [1, 0, 1, 0])"
    by code_simp
  note inst = window_open_only_inside_and_awake
    [of "set_timeline alice morning_axis" "[1, 1, 0, 0]" "[0, 0, 0, 0]" "[1, 1, 0, 0]"
        "[0, 1, 0, 0]" "[1, 0, 1, 0]" "[0, 0, 0, 0]" 0 4]
  from inst fresh gen have "[1, 1, 0, 0 :: int] ! 1 = 1 \<and> [0, 0, 0, 0 :: int] ! 1 = 0"
    by simp
  moreover have "window_fill [1, 1, 0, 0] [0, 0, 0, 0] [0..<4] [0, 0, 0, 0] ! 2 = 0"
  proof -
    have "\<not> (\<forall>j::nat. 0 \<le> j \<and> j \<le> 2 \<longrightarrow> [1, 1, 0, 0 :: int] ! j \<noteq> 0 \<and> [0, 0, 0, 0 :: int] ! j = 0)"
      by (auto intro!: exI[of _ 2])
    with inst show ?thesis by simp
  qed
  ultimately show ?thesis using fresh gen by simp
qed

section \<open>Sleep\<close>

lemma generate_sleeping_nth:
  "i < length ts \<Longrightarrow>
   generate_sleeping p (extract_time_features ts) ! i
     = (if is_sleeping (sleep_hours p) (hours (extract_time_features ts) ! i) then 1 else 0)"
  by (simp add: generate_sleeping_def)

lemma generate_sleeping_rng [simp]:
  "generate_sleeping (p\<lparr>rng := g\<rparr>) tf = generate_sleeping p tf"
  by (simp add: generate_sleeping_def)

text \<open>
  Claim C3 says that with \<open>start = end\<close> the sleeping array is all zeros. The source
  tests \<open>start < end\<close>, so equal bounds take the wrapping branch, which every hour
  satisfies: at noon, a person with sleep hours (5, 5) is asleep.
\<close>

theorem sleeping_all_ones_when_start_equals_end:
  "fst (sleep_hours bob) = snd (sleep_hours bob)
   \<and> fst (Person_generate (set_timeline bob noon_axis)) = Inr ([1], [1], [0], [0], [0])"
  by code_simp

text \<open>
  Claim C3, amended. In the result of a first \<open>generate()\<close>, \<open>sleeping\<close> has the
  length of the axis and holds 0 or 1; it is 1 exactly when \<open>start <= h < end\<close> if
  \<open>start < end\<close>, and exactly when \<open>h >= start or h < end\<close> if \<open>start >= end\<close>;
  with \<open>start = end\<close> it is 1 everywhere; and it is the same whatever the state of
  the person's random stream.
\<close>

theorem sleeping_follows_sleep_hours:
  "timeline_cache p = None \<longrightarrow> person.timestamps p = Some ts \<longrightarrow> sleep_hours p = (start, stop) \<longrightarrow>
   fst (Person_generate p) = Inr (inside, sleeping, room1, windows, doors) \<longrightarrow>
     length sleeping = length ts
     \<and> (\<forall>i<length ts.
           (sleeping ! i = 1 \<or> sleeping ! i = 0)
           \<and> (sleeping ! i = 1 \<longleftrightarrow>
                (if start < stop
                 then of_int start \<le> hours (extract_time_features ts) ! i
                      \<and> hours (extract_time_features ts) ! i < of_int stop
                 else hours (extract_time_features ts) ! i \<ge> of_int start
                      \<or> hours (extract_time_features ts) ! i < of_int stop)))
     \<and> (start = stop \<longrightarrow> sleeping = replicate (length ts) 1)
     \<and> (\<forall>g inside' sleeping' room1' windows' doors'.
           fst (Person_generate (p\<lparr>rng := g\<rparr>))
             = Inr (inside', sleeping', room1', windows', doors') \<longrightarrow> sleeping' = sleeping)"
proof (intro impI)
  assume fresh: "timeline_cache p = None" and ts: "person.timestamps p = Some ts"
    and sh: "sleep_hours p = (start, stop)"
    and gen: "fst (Person_generate p) = Inr (inside, sleeping, room1, windows, doors)"
  from fresh gen ts have sl: "sleeping = generate_sleeping p (extract_time_features ts)"
    by (auto elim!: Person_generate_fresh)
  have len: "length sleeping = length ts" by (simp add: sl)
  have vals: "\<forall>i<length ts.
           (sleeping ! i = 1 \<or> sleeping ! i = 0)
           \<and> (sleeping ! i = 1 \<longleftrightarrow>
                (if start < stop
                 then of_int start \<le> hours (extract_time_features ts) ! i
                      \<and> hours (extract_time_features ts) ! i < of_int stop
                 else hours (extract_time_features ts) ! i \<ge> of_int start
                      \<or> hours (extract_time_features ts) ! i < of_int stop))"
    by (simp add: sl generate_sleeping_nth sh is_sleeping_def)
  have ones: "start = stop \<longrightarrow> sleeping = replicate (length ts) 1"
  proof
    assume "start = stop"
    then have "\<And>h. is_sleeping (sleep_hours p) h" by (auto simp: sh is_sleeping_def)
    then show "sleeping = replicate (length ts) 1"
      by (simp add: sl generate_sleeping_def map_replicate_const)
  qed
  have norand: "\<forall>g inside' sleeping' room1' windows' doors'.
           fst (Person_generate (p\<lparr>rng := g\<rparr>))
             = Inr (inside', sleeping', room1', windows', doors') \<longrightarrow> sleeping' = sleeping"
  proof (intro allI impI)
    fix g inside' sleeping' room1' windows' doors'
    assume g: "fst (Person_generate (p\<lparr>rng := g\<rparr>))
             = Inr (inside', sleeping', room1', windows', doors')"
    have "timeline_cache (p\<lparr>rng := g\<rparr>) = None" using fresh by simp
    from this g obtain ts' where
      "person.timestamps (p\<lparr>rng := g\<rparr>) = Some ts'"
      "sleeping' = generate_sleeping (p\<lparr>rng := g\<rparr>) (extract_time_features ts')"
      by (rule Person_generate_fresh)
    with ts show "sleeping' = sleeping" by (simp add: sl)
  qed
  from len vals ones norand show "length sleeping = length ts
     \<and> (\<forall>i<length ts.
           (sleeping ! i = 1 \<or> sleeping ! i = 0)
           \<and> (sleeping ! i = 1 \<longleftrightarrow>
                (if start < stop
                 then of_int start \<le> hours (extract_time_features ts) ! i
                      \<and> hours (extract_time_features ts) ! i < of_int stop
                 else hours (extract_time_features ts) ! i \<ge> of_int start
                      \<or> hours (extract_time_features ts) ! i < of_int stop)))
     \<and> (start = stop \<longrightarrow> sleeping = replicate (length ts) 1)
     \<and> (\<forall>g inside' sleeping' room1' windows' doors'.
           fst (Person_generate (p\<lparr>rng := g\<rparr>))
             = Inr (inside', sleeping', room1', windows', doors') \<longrightarrow> sleeping' = sleeping)"
    by blast
qed

theorem sleeping_follows_sleep_hours_witness:
  "timeline_cache (set_timeline alice morning_axis) = None
   \<and> person.timestamps (set_timeline alice morning_axis) = Some morning_axis
   \<and> sleep_hours (set_timeline alice morning_axis) = (23, 7)
   \<and> fst (Person_generate (set_timeline alice morning_axis))
     = Inr ([1, 1, 0, 0], [0, 0, 0, 0], [1, 1, 0, 0], [0, 1, 0, 0], [1, 0, 1, 0])
   \<and> (1::nat) < length morning_axis
   \<and> \<not> (hours (extract_time_features morning_axis) ! 1 \<ge> 23
         \<or> hours (extract_time_features morning_axis) ! 1 < 7)"
proof -
  have h1: "timeline_cache (set_timeline alice morning_axis) = None"
    by (simp add: set_timeline_def)
  have h2: "person.timestamps (set_timeline alice morning_axis) = Some morning_axis"
    by (simp add: set_timeline_def)
  have h3: "sleep_hours (set_timeline alice morning_axis) = (23, 7)"
    by (simp add: set_timeline_def alice_def Person_init_def)
  have h4: "fst (Person_generate (set_timeline alice morning_axis))
     = Inr ([1, 1, 0, 0], [0, 0, 0, 0], [1, 1, 0, 0], [0, 1, 0, 0], [1, 0, 1, 0])"
    by code_simp
  have h5: "(1::nat) < length morning_axis" by (simp add: morning_axis_def)
  from sleeping_follows_sleep_hours[of "set_timeline alice morning_axis" morning_axis 23 7 "[1, 1, 0, 0]" "[0, 0, 0, 0]"
            "[1, 1, 0, 0]" "[0, 1, 0, 0]" "[1, 0, 1, 0]"] h1 h2 h3 h4
  have "\<forall>i<length morning_axis.
          ([0, 0, 0, 0 :: int] ! i = 1 \<longleftrightarrow>
             (hours (extract_time_features morning_axis) ! i \<ge> 23
               \<or> hours (extract_time_features morning_axis) ! i < 7))"
    by simp
  with h5 have "\<not> (hours (extract_time_features morning_axis) ! 1 \<ge> 23
         \<or> hours (extract_time_features morning_axis) ! 1 < 7)"
    by (metis nth_Cons_0 nth_Cons_Suc One_nat_def zero_neq_one)
  with h1 h2 h3 h4 h5 show ?thesis by blast
qed

section \<open>Caching\<close>

lemma Person_generate_cached:
  "timeline_cache p = Some c \<Longrightarrow> Person_generate p = (Inr c, p)"
  by (simp add: Person_generate_def)

lemma Person_generate_fresh_cache:
  assumes "timeline_cache p = None" and "fst (Person_generate p) = Inr c"
  shows "timeline_cache (snd (Person_generate p)) = Some c"
  using assms
  by (auto simp: Person_generate_def Let_def split: option.splits prod.splits sum.splits)

text \<open>
  Claim C4. After \<open>set_timeline\<close> and a \<open>generate()\<close> that returned, a second
  \<open>generate()\<close> returns the same tuple and leaves the person, its random stream
  included, as it was: no draw is made. On a person just constructed, with no timeline
  bound, \<open>generate()\<close> raises the \<open>ValueError\<close> of the missing timeline and
  produces nothing.
\<close>

theorem generate_is_idempotent:
  "(fst (Person_generate (set_timeline p ts)) = Inr c \<longrightarrow>
      Person_generate (snd (Person_generate (set_timeline p ts)))
        = (Inr c, snd (Person_generate (set_timeline p ts)))
      \<and> pos (rng (snd (Person_generate (snd (Person_generate (set_timeline p ts))))))
          = pos (rng (snd (Person_generate (set_timeline p ts)))))
   \<and> Person_generate (Person_init bitgen entropy nm ohwd ohwe sh wpd wd dpd dd rpd rd sd)
       = (Inl (ValueError
            ''Timestamps must be set using set_timeline before generating timeline.''),
          Person_init bitgen entropy nm ohwd ohwe sh wpd wd dpd dd rpd rd sd)"
proof (intro conjI impI)
  assume gen: "fst (Person_generate (set_timeline p ts)) = Inr c"
  have "timeline_cache (set_timeline p ts) = None" by (simp add: set_timeline_def)
  from this gen have "timeline_cache (snd (Person_generate (set_timeline p ts))) = Some c"
    by (rule Person_generate_fresh_cache)
  then show again: "Person_generate (snd (Person_generate (set_timeline p ts)))
        = (Inr c, snd (Person_generate (set_timeline p ts)))"
    by (rule Person_generate_cached)
  then show "pos (rng (snd (Person_generate (snd (Person_generate (set_timeline p ts))))))
          = pos (rng (snd (Person_generate (set_timeline p ts))))"
    by simp
next
  show "Person_generate (Person_init bitgen entropy nm ohwd ohwe sh wpd wd dpd dd rpd rd sd)
       = (Inl (ValueError
            ''Timestamps must be set using set_timeline before generating timeline.''),
          Person_init bitgen entropy nm ohwd ohwe sh wpd wd dpd dd rpd rd sd)"
    by (simp add: Person_generate_def Person_init_def)
qed

theorem generate_is_idempotent_witness:
  "fst (Person_generate (set_timeline alice morning_axis))
     = Inr ([1, 1, 0, 0], [0, 0, 0, 0], [1, 1, 0, 0], [0, 1, 0, 0], [1, 0, 1, 0])
   \<and> Person_generate (snd (Person_generate (set_timeline alice morning_axis)))
     = (Inr ([1, 1, 0, 0], [0, 0, 0, 0], [1, 1, 0, 0], [0, 1, 0, 0], [1, 0, 1, 0]),
        snd (Person_generate (set_timeline alice morning_axis)))"
proof -
  have gen: "fst (Person_generate (set_timeline alice morning_axis))
     = Inr ([1, 1, 0, 0], [0, 0, 0, 0], [1, 1, 0, 0], [0, 1, 0, 0], [1, 0, 1, 0])"
    by code_simp
  with generate_is_idempotent[of alice morning_axis "([1, 1, 0, 0], [0, 0, 0, 0], [1, 1, 0, 0], [0, 1, 0, 0], [1, 0, 1, 0])"]
  show ?thesis by blast
qed

section \<open>Errors of the sampling loops\<close>

lemma rng_integers_degenerate:
  "in_int64 r \<Longrightarrow> fst r > snd r
   \<Longrightarrow> rng_integers (fst r) (snd r + 1) g = (Inl (ValueError ''low >= high''), g)"
  by (simp add: rng_integers_def in_int64_def)

lemma rng_integers_error:
  "rng_integers (fst r) (snd r + 1) g = (Inl e, g') \<Longrightarrow> in_int64 r
   \<Longrightarrow> e = ValueError ''low >= high''"
  by (auto simp: rng_integers_def in_int64_def split: if_splits prod.splits)

lemma rng_integers_ok:
  "in_int64 r \<Longrightarrow> fst r \<le> snd r \<Longrightarrow> \<exists>v g'. rng_integers (fst r) (snd r + 1) g = (Inr v, g')"
  by (auto simp: rng_integers_def in_int64_def split: prod.splits)

lemma rng_integers_range:
  assumes "rng_integers lo hi g = (Inr v, g')"
  shows "lo \<le> v \<and> v < hi"
proof -
  from assms have lt: "lo < hi" and v: "v = lo + int (fst (raw_draw g)) mod (hi - lo)"
    by (auto simp: rng_integers_def split: if_splits prod.splits)
  from lt have "0 \<le> int (fst (raw_draw g)) mod (hi - lo)"
    and "int (fst (raw_draw g)) mod (hi - lo) < hi - lo"
    by simp_all
  with v show ?thesis by linarith
qed

lemma rng_choice_ok:
  "a \<noteq> [] \<Longrightarrow> \<exists>v g'. rng_choice a g = (Inr v, g')"
  by (cases "raw_draw g") (simp add: rng_choice_def)

lemma for_each_error:
  assumes "for_each xs body s g = (Inl e, g')"
    and "\<And>x t h e' h'. body x t h = (Inl e', h') \<Longrightarrow> Q e'"
  shows "Q e"
  using assms(1)
proof (induction xs arbitrary: s g)
  case Nil
  then show ?case by simp
next
  case (Cons x xs)
  obtain r h where b: "body x s g = (r, h)" by (cases "body x s g")
  show ?case
  proof (cases r)
    case (Inl e')
    with Cons.prems b have "e' = e" by simp
    with assms(2)[of x s g e' h] b Inl show ?thesis by simp
  next
    case (Inr t)
    with Cons.prems b have "for_each xs body t h = (Inl e, g')" by simp
    then show ?thesis by (rule Cons.IH)
  qed
qed

lemma for_each_ok:
  assumes "\<And>x t h. x \<in> set xs \<Longrightarrow> \<exists>t' h'. body x t h = (Inr t', h')"
  shows "\<exists>s' g'. for_each xs body s g = (Inr s', g')"
  using assms
proof (induction xs arbitrary: s g)
  case Nil
  then show ?case by simp
next
  case (Cons x xs)
  from Cons.prems[of x s g] obtain t h where b: "body x s g = (Inr t, h)" by auto
  have "\<exists>s' g'. for_each xs body t h = (Inr s', g')"
    by (rule Cons.IH) (simp add: Cons.prems)
  with b show ?case by simp
qed

text \<open>
  A loop fails with the error \<open>err\<close> when every failure of its body is \<open>err\<close> and the
  body fails at some element, whatever the state and the generator there.
\<close>

lemma for_each_fails:
  assumes "x \<in> set xs"
    and "\<And>t h. \<exists>h'. body x t h = (Inl err, h')"
    and "\<And>y t h e h'. body y t h = (Inl e, h') \<Longrightarrow> e = err"
  shows "\<exists>g'. for_each xs body s g = (Inl err, g')"
  using assms(1)
proof (induction xs arbitrary: s g)
  case Nil
  then show ?case by simp
next
  case (Cons y ys)
  obtain r h where b: "body y s g = (r, h)" by (cases "body y s g")
  show ?case
  proof (cases r)
    case (Inl e)
    with b assms(3) have "e = err" by blast
    with b Inl show ?thesis by simp
  next
    case (Inr t)
    have "y \<noteq> x" using assms(2)[of s g] b Inr by auto
    with Cons.prems have "x \<in> set ys" by simp
    from Cons.IH[OF this, of t h] b Inr show ?thesis by simp
  qed
qed

lemma sample_event_unfold:
  assumes "valid_indices inside sleeping day_indices \<noteq> []"
  obtains start_idx g1 where
    "rng_choice (valid_indices inside sleeping day_indices) g = (Inr start_idx, g1)"
    "sample_event dur inside sleeping day_indices fill state g =
       (case rng_integers (fst dur) (snd dur + 1) g1 of
          (Inl e, g2) \<Rightarrow> (Inl e, g2)
        | (Inr duration, g2) \<Rightarrow>
            (Inr (fill [start_idx..<nat (min (int64_add (int start_idx) duration)
                                          (int (last day_indices) + 1))] state), g2))"
proof -
  from rng_choice_ok[OF assms] obtain start_idx g1 where
    c: "rng_choice (valid_indices inside sleeping day_indices) g = (Inr start_idx, g1)"
    by blast
  have "sample_event dur inside sleeping day_indices fill state g =
       (case rng_integers (fst dur) (snd dur + 1) g1 of
          (Inl e, g2) \<Rightarrow> (Inl e, g2)
        | (Inr duration, g2) \<Rightarrow>
            (Inr (fill [start_idx..<nat (min (int64_add (int start_idx) duration)
                                          (int (last day_indices) + 1))] state), g2))"
    using c assms by (simp add: sample_event_def Let_def split: prod.splits sum.splits)
  with c show ?thesis by (rule that)
qed

lemma sample_event_error:
  assumes "sample_event dur inside sleeping day_indices fill state g = (Inl e, g')"
    and "in_int64 dur"
  shows "e = ValueError ''low >= high''"
proof (cases "valid_indices inside sleeping day_indices = []")
  case True
  with assms(1) show ?thesis by (simp add: sample_event_def)
next
  case False
  then obtain start_idx g1 where
    u: "sample_event dur inside sleeping day_indices fill state g =
       (case rng_integers (fst dur) (snd dur + 1) g1 of
          (Inl e, g2) \<Rightarrow> (Inl e, g2)
        | (Inr duration, g2) \<Rightarrow>
            (Inr (fill [start_idx..<nat (min (int64_add (int start_idx) duration)
                                          (int (last day_indices) + 1))] state), g2))"
    by (rule sample_event_unfold)
  obtain r g2 where i: "rng_integers (fst dur) (snd dur + 1) g1 = (r, g2)"
    by (cases "rng_integers (fst dur) (snd dur + 1) g1")
  show ?thesis
  proof (cases r)
    case (Inl e')
    with u i assms(1) have "e' = e" by simp
    with i Inl rng_integers_error[OF _ assms(2)] show ?thesis by blast
  next
    case (Inr duration)
    with u i assms(1) show ?thesis by simp
  qed
qed

lemma sample_event_ok:
  assumes "in_int64 dur \<and> fst dur \<le> snd dur \<or> valid_indices inside sleeping day_indices = []"
  shows "\<exists>s' g'. sample_event dur inside sleeping day_indices fill state g = (Inr s', g')"
proof (cases "valid_indices inside sleeping day_indices = []")
  case True
  then show ?thesis by (simp add: sample_event_def)
next
  case False
  then obtain start_idx g1 where
    u: "sample_event dur inside sleeping day_indices fill state g =
       (case rng_integers (fst dur) (snd dur + 1) g1 of
          (Inl e, g2) \<Rightarrow> (Inl e, g2)
        | (Inr duration, g2) \<Rightarrow>
            (Inr (fill [start_idx..<nat (min (int64_add (int start_idx) duration)
                                          (int (last day_indices) + 1))] state), g2))"
    by (rule sample_event_unfold)
  from False assms have "in_int64 dur" and "fst dur \<le> snd dur" by simp_all
  from rng_integers_ok[OF this] obtain duration g2 where
    "rng_integers (fst dur) (snd dur + 1) g1 = (Inr duration, g2)" by blast
  with u show ?thesis by simp
qed

lemma sample_event_degenerate:
  assumes "in_int64 dur" and "fst dur > snd dur"
    and "valid_indices inside sleeping day_indices \<noteq> []"
  shows "\<exists>g'. sample_event dur inside sleeping day_indices fill state g
           = (Inl (ValueError ''low >= high''), g')"
proof -
  from assms(3) obtain start_idx g1 where
    u: "sample_event dur inside sleeping day_indices fill state g =
       (case rng_integers (fst dur) (snd dur + 1) g1 of
          (Inl e, g2) \<Rightarrow> (Inl e, g2)
        | (Inr duration, g2) \<Rightarrow>
            (Inr (fill [start_idx..<nat (min (int64_add (int start_idx) duration)
                                          (int (last day_indices) + 1))] state), g2))"
    by (rule sample_event_unfold)
  show ?thesis by (simp add: u rng_integers_degenerate[OF assms(1,2)])
qed

lemma sample_day_error:
  assumes "sample_day per_day dur inside sleeping fill day_indices state g = (Inl e, g')"
    and "in_int64 per_day" and "in_int64 dur"
  shows "e = ValueError ''low >= high''"
proof (cases "rng_integers (fst per_day) (snd per_day + 1) g")
  case (Pair r g1)
  show ?thesis
  proof (cases r)
    case (Inl e')
    with Pair assms(1) have "e' = e" by (simp add: sample_day_def)
    with Pair Inl rng_integers_error[OF _ assms(2)] show ?thesis by blast
  next
    case (Inr n_periods)
    with Pair assms(1) have
      "for_each [0..<nat n_periods] (\<lambda>_. sample_event dur inside sleeping day_indices fill)
         state g1 = (Inl e, g')"
      by (simp add: sample_day_def)
    then show ?thesis by (rule for_each_error) (rule sample_event_error[OF _ assms(3)])
  qed
qed

lemma sample_day_ok:
  assumes "in_int64 per_day" and "fst per_day \<le> snd per_day"
    and "in_int64 dur \<and> fst dur \<le> snd dur \<or> snd per_day \<le> 0
         \<or> valid_indices inside sleeping day_indices = []"
  shows "\<exists>s' g'. sample_day per_day dur inside sleeping fill day_indices state g = (Inr s', g')"
proof -
  from rng_integers_ok[OF assms(1,2)] obtain n_periods g1 where
    n: "rng_integers (fst per_day) (snd per_day + 1) g = (Inr n_periods, g1)" by blast
  have "\<exists>s' g'. for_each [0..<nat n_periods]
      (\<lambda>_. sample_event dur inside sleeping day_indices fill) state g1 = (Inr s', g')"
  proof (cases "snd per_day \<le> 0")
    case True
    with rng_integers_range[OF n] have "nat n_periods = 0" by simp
    then show ?thesis by simp
  next
    case False
    with assms(3) have
      "in_int64 dur \<and> fst dur \<le> snd dur \<or> valid_indices inside sleeping day_indices = []"
      by blast
    then show ?thesis by (intro for_each_ok sample_event_ok)
  qed
  with n show ?thesis by (simp add: sample_day_def)
qed

lemma sample_day_degenerate:
  "in_int64 per_day \<Longrightarrow> fst per_day > snd per_day \<Longrightarrow>
   sample_day per_day dur inside sleeping fill day_indices state g
     = (Inl (ValueError ''low >= high''), g)"
  by (simp add: sample_day_def rng_integers_degenerate)

text \<open>
  A day on which at least one event is always sampled, with an empty duration range and
  a valid index: the day's loop fails, at the count or at the duration of its first event.
\<close>

lemma sample_day_fails:
  assumes "in_int64 per_day" and "in_int64 dur" and "1 \<le> fst per_day"
    and "fst dur > snd dur" and "valid_indices inside sleeping day_indices \<noteq> []"
  shows "\<exists>g'. sample_day per_day dur inside sleeping fill day_indices state g
           = (Inl (ValueError ''low >= high''), g')"
proof (cases "rng_integers (fst per_day) (snd per_day + 1) g")
  case (Pair r g1)
  show ?thesis
  proof (cases r)
    case (Inl e)
    with Pair rng_integers_error[OF _ assms(1)] have "e = ValueError ''low >= high''" by blast
    with Pair Inl show ?thesis by (simp add: sample_day_def)
  next
    case (Inr n_periods)
    with Pair rng_integers_range assms(3) have "1 \<le> n_periods" by fastforce
    then have upt: "[0..<nat n_periods] = 0 # [1..<nat n_periods]"
      by (simp add: upt_conv_Cons)
    from sample_event_degenerate[OF assms(2,4,5)] obtain g' where
      "sample_event dur inside sleeping day_indices fill state g1
         = (Inl (ValueError ''low >= high''), g')" by blast
    with Pair Inr upt show ?thesis by (simp add: sample_day_def)
  qed
qed

lemma sample_days_error:
  assumes "for_each days (sample_day per_day dur inside sleeping fill) state g = (Inl e, g')"
    and "in_int64 per_day" and "in_int64 dur"
  shows "e = ValueError ''low >= high''"
  using assms(1) by (rule for_each_error) (rule sample_day_error[OF _ assms(2,3)])

lemma sample_days_ok:
  assumes "in_int64 per_day" and "fst per_day \<le> snd per_day"
    and "in_int64 dur \<and> fst dur \<le> snd dur \<or> snd per_day \<le> 0
         \<or> (\<forall>day\<in>set days. valid_indices inside sleeping day = [])"
  shows "\<exists>s' g'. for_each days (sample_day per_day dur inside sleeping fill) state g
           = (Inr s', g')"
proof (rule for_each_ok)
  fix day t h
  assume "day \<in> set days"
  with assms(3) have
    "in_int64 dur \<and> fst dur \<le> snd dur \<or> snd per_day \<le> 0
         \<or> valid_indices inside sleeping day = []"
    by blast
  with assms(1,2) show "\<exists>t' h'. sample_day per_day dur inside sleeping fill day t h = (Inr t', h')"
    by (rule sample_day_ok)
qed

lemma sample_days_degenerate:
  assumes "in_int64 per_day" and "fst per_day > snd per_day" and "days \<noteq> []"
  shows "for_each days (sample_day per_day dur inside sleeping fill) state g
           = (Inl (ValueError ''low >= high''), g)"
  using assms by (cases days) (simp_all add: sample_day_degenerate)

lemma sample_days_fails:
  assumes "in_int64 per_day" and "in_int64 dur" and "1 \<le> fst per_day"
    and "fst dur > snd dur"
    and "day \<in> set days" and "valid_indices inside sleeping day \<noteq> []"
  shows "\<exists>g'. for_each days (sample_day per_day dur inside sleeping fill) state g
           = (Inl (ValueError ''low >= high''), g')"
  using assms(5)
proof (rule for_each_fails)
  fix t h
  show "\<exists>h'. sample_day per_day dur inside sleeping fill day t h
          = (Inl (ValueError ''low >= high''), h')"
    using assms(1,2,3,4,6) by (rule sample_day_fails)
next
  fix y t h e h'
  assume "sample_day per_day dur inside sleeping fill y t h = (Inl e, h')"
  then show "e = ValueError ''low >= high''" using assms(1,2) by (rule sample_day_error)
qed

lemma get_day_indices_nonempty:
  "dates tf \<noteq> [] \<Longrightarrow> get_day_indices tf \<noteq> []"
proof -
  assume ne: "dates tf \<noteq> []"
  have "filter (\<lambda>day. day \<in> set (dates tf)) (sort (remdups (dates tf)))
          = sort (remdups (dates tf))"
    by (rule filter_True) simp
  moreover have "sort (remdups (dates tf)) \<noteq> []"
    using ne by (metis set_empty set_remdups set_sort)
  ultimately show ?thesis by (simp add: get_day_indices_def Let_def)
qed

lemma get_day_indices_axis:
  "ts \<noteq> [] \<Longrightarrow> get_day_indices (extract_time_features ts) \<noteq> []"
  by (rule get_day_indices_nonempty) (simp add: extract_time_features_def)

lemma has_valid_index_iff:
  "has_valid_index inside sleeping n \<longleftrightarrow> (\<exists>i<n. inside ! i \<noteq> 0 \<and> sleeping ! i = 0)"
  by (auto simp: has_valid_index_def list_ex_iff)

text \<open>The day of a valid index has a valid index; without one, no day has.\<close>

lemma valid_day_exists:
  assumes "has_valid_index inside sleeping (length ts)"
  shows "\<exists>day\<in>set (get_day_indices (extract_time_features ts)).
           valid_indices inside sleeping day \<noteq> []"
proof -
  let ?tf = "extract_time_features ts"
  from assms obtain i where i: "i < length ts" and v: "inside ! i \<noteq> 0" "sleeping ! i = 0"
    by (auto simp: has_valid_index_iff)
  let ?day = "filter (\<lambda>j. dates ?tf ! j = dates ?tf ! i) [0..<length (dates ?tf)]"
  have mem: "dates ?tf ! i \<in> set (dates ?tf)" using i by simp
  have "?day \<in> set (get_day_indices ?tf)"
    using mem
    by (auto simp: get_day_indices_def Let_def intro!: image_eqI[where x = "dates ?tf ! i"])
  moreover have "i \<in> set (valid_indices inside sleeping ?day)"
    using i v by (simp add: valid_indices_def)
  ultimately show ?thesis by (metis empty_iff list.set(1))
qed

lemma no_valid_day:
  assumes "\<not> has_valid_index inside sleeping (length ts)"
    and "day \<in> set (get_day_indices (extract_time_features ts))"
  shows "valid_indices inside sleeping day = []"
proof -
  from assms(2) have "set day \<subseteq> {..<length ts}"
    by (auto simp: get_day_indices_def Let_def)
  with assms(1) show ?thesis
    by (auto simp: valid_indices_def has_valid_index_iff filter_empty_conv)
qed

lemma generate_room1_error:
  assumes "generate_room1 p tf inside sleeping g = (Inl e, g')"
    and "in_int64 (room_per_day p)" and "in_int64 (room_duration p)"
  shows "e = ValueError ''low >= high''"
proof (cases "length (hours tf) = 0")
  case True
  with assms(1) show ?thesis by (simp add: generate_room1_def)
next
  case False
  with assms(1) have
    "for_each (get_day_indices tf)
       (sample_day (room_per_day p) (room_duration p) inside sleeping
          (room1_fill (length (hours tf)) inside sleeping))
       (replicate (length (hours tf)) 0) g = (Inl e, g')"
    by (simp add: generate_room1_def Let_def)
  then show ?thesis using assms(2,3) by (rule sample_days_error)
qed

lemma generate_window_state_error:
  "generate_window_state p n tf inside sleeping g = (Inl e, g')
   \<Longrightarrow> in_int64 (window_open_per_day p) \<Longrightarrow> in_int64 (window_open_duration p)
   \<Longrightarrow> e = ValueError ''low >= high''"
  unfolding generate_window_state_def by (rule sample_days_error)

lemma generate_door_state_error:
  "generate_door_state p n tf inside sleeping g = (Inl e, g')
   \<Longrightarrow> in_int64 (door_open_per_day p) \<Longrightarrow> in_int64 (door_open_duration p)
   \<Longrightarrow> e = ValueError ''low >= high''"
  unfolding generate_door_state_def by (rule sample_days_error)

lemma generate_room1_degenerate:
  assumes "in_int64 (room_per_day p)"
    and "fst (room_per_day p) > snd (room_per_day p)" and "ts \<noteq> []"
  shows "generate_room1 p (extract_time_features ts) inside sleeping g
           = (Inl (ValueError ''low >= high''), g)"
  using assms
  by (simp add: generate_room1_def Let_def sample_days_degenerate get_day_indices_axis)

lemma generate_window_state_degenerate:
  assumes "in_int64 (window_open_per_day p)"
    and "fst (window_open_per_day p) > snd (window_open_per_day p)" and "ts \<noteq> []"
  shows "generate_window_state p n (extract_time_features ts) inside sleeping g
           = (Inl (ValueError ''low >= high''), g)"
  using assms
  by (simp add: generate_window_state_def sample_days_degenerate get_day_indices_axis)

lemma generate_door_state_degenerate:
  assumes "in_int64 (door_open_per_day p)"
    and "fst (door_open_per_day p) > snd (door_open_per_day p)" and "ts \<noteq> []"
  shows "generate_door_state p n (extract_time_features ts) inside sleeping g
           = (Inl (ValueError ''low >= high''), g)"
  using assms
  by (simp add: generate_door_state_def sample_days_degenerate get_day_indices_axis)

lemma generate_room1_fails:
  assumes "in_int64 (room_per_day p)" and "in_int64 (room_duration p)"
    and "1 \<le> fst (room_per_day p)" and "fst (room_duration p) > snd (room_duration p)"
    and "has_valid_index inside sleeping (length ts)"
  shows "\<exists>g'. generate_room1 p (extract_time_features ts) inside sleeping g
           = (Inl (ValueError ''low >= high''), g')"
proof -
  from assms(5) have ne: "length ts \<noteq> 0" by (auto simp: has_valid_index_iff)
  from valid_day_exists[OF assms(5)] obtain day where
    "day \<in> set (get_day_indices (extract_time_features ts))"
    "valid_indices inside sleeping day \<noteq> []" by blast
  from sample_days_fails[OF assms(1,2,3,4) this] ne show ?thesis
    by (simp add: generate_room1_def Let_def)
qed

lemma generate_window_state_fails:
  assumes "in_int64 (window_open_per_day p)" and "in_int64 (window_open_duration p)"
    and "1 \<le> fst (window_open_per_day p)"
    and "fst (window_open_duration p) > snd (window_open_duration p)"
    and "has_valid_index inside sleeping (length ts)"
  shows "\<exists>g'. generate_window_state p n (extract_time_features ts) inside sleeping g
           = (Inl (ValueError ''low >= high''), g')"
proof -
  from valid_day_exists[OF assms(5)] obtain day where
    "day \<in> set (get_day_indices (extract_time_features ts))"
    "valid_indices inside sleeping day \<noteq> []" by blast
  from sample_days_fails[OF assms(1,2,3,4) this] show ?thesis
    by (simp add: generate_window_state_def)
qed

lemma generate_door_state_fails:
  assumes "in_int64 (door_open_per_day p)" and "in_int64 (door_open_duration p)"
    and "1 \<le> fst (door_open_per_day p)"
    and "fst (door_open_duration p) > snd (door_open_duration p)"
    and "has_valid_index inside sleeping (length ts)"
  shows "\<exists>g'. generate_door_state p n (extract_time_features ts) inside sleeping g
           = (Inl (ValueError ''low >= high''), g')"
proof -
  from valid_day_exists[OF assms(5)] obtain day where
    "day \<in> set (get_day_indices (extract_time_features ts))"
    "valid_indices inside sleeping day \<noteq> []" by blast
  from sample_days_fails[OF assms(1,2,3,4) this] show ?thesis
    by (simp add: generate_door_state_def)
qed

lemma sample_days_ok_axis:
  assumes "in_int64 per_day" and "fst per_day \<le> snd per_day"
    and "in_int64 dur \<and> fst dur \<le> snd dur \<or> snd per_day \<le> 0
         \<or> \<not> has_valid_index inside sleeping (length ts)"
  shows "\<exists>s' g'. for_each (get_day_indices (extract_time_features ts))
                    (sample_day per_day dur inside sleeping fill) state g = (Inr s', g')"
proof -
  have "in_int64 dur \<and> fst dur \<le> snd dur \<or> snd per_day \<le> 0
         \<or> (\<forall>day\<in>set (get_day_indices (extract_time_features ts)).
               valid_indices inside sleeping day = [])"
    using assms(3) no_valid_day[of inside sleeping ts] by blast
  with assms(1,2) show ?thesis by (rule sample_days_ok)
qed

lemma generate_room1_ok:
  assumes "in_int64 (room_per_day p)" and "fst (room_per_day p) \<le> snd (room_per_day p)"
    and "in_int64 (room_duration p) \<and> fst (room_duration p) \<le> snd (room_duration p)
         \<or> snd (room_per_day p) \<le> 0 \<or> \<not> has_valid_index inside sleeping (length ts)"
  shows "\<exists>room1 g'. generate_room1 p (extract_time_features ts) inside sleeping g
           = (Inr room1, g')"
  using sample_days_ok_axis[OF assms] by (simp add: generate_room1_def Let_def)

lemma generate_window_state_ok:
  assumes "in_int64 (window_open_per_day p)"
    and "fst (window_open_per_day p) \<le> snd (window_open_per_day p)"
    and "in_int64 (window_open_duration p)
           \<and> fst (window_open_duration p) \<le> snd (window_open_duration p)
         \<or> snd (window_open_per_day p) \<le> 0 \<or> \<not> has_valid_index inside sleeping (length ts)"
  shows "\<exists>windows g'. generate_window_state p n (extract_time_features ts) inside sleeping g
           = (Inr windows, g')"
  using sample_days_ok_axis[OF assms] by (simp add: generate_window_state_def)

lemma generate_door_state_ok:
  assumes "in_int64 (door_open_per_day p)"
    and "fst (door_open_per_day p) \<le> snd (door_open_per_day p)"
    and "in_int64 (door_open_duration p)
           \<and> fst (door_open_duration p) \<le> snd (door_open_duration p)
         \<or> snd (door_open_per_day p) \<le> 0 \<or> \<not> has_valid_index inside sleeping (length ts)"
  shows "\<exists>doors g'. generate_door_state p n (extract_time_features ts) inside sleeping g
           = (Inr doors, g')"
  using sample_days_ok_axis[OF assms] by (simp add: generate_door_state_def)

text \<open>The stages of a first \<open>generate()\<close>, written with the results of the three samplers.\<close>

lemma Person_generate_stages:
  assumes "timeline_cache p = None" and "person.timestamps p = Some ts"
    and "generate_room1 p (extract_time_features ts)
           (generate_inside p (extract_time_features ts))
           (generate_sleeping p (extract_time_features ts)) (rng p) = (r1, g1)"
    and "generate_window_state p (length ts) (extract_time_features ts)
           (generate_inside p (extract_time_features ts))
           (generate_sleeping p (extract_time_features ts)) g1 = (r2, g2)"
    and "generate_door_state p (length ts) (extract_time_features ts)
           (generate_inside p (extract_time_features ts))
           (generate_sleeping p (extract_time_features ts)) g2 = (r3, g3)"
  shows "Person_generate p =
     (case r1 of
        Inl e \<Rightarrow> (Inl e, p\<lparr>rng := g1\<rparr>)
      | Inr room1 \<Rightarrow>
          (case r2 of
             Inl e \<Rightarrow> (Inl e, p\<lparr>rng := g2\<rparr>)
           | Inr windows \<Rightarrow>
               (case r3 of
                  Inl e \<Rightarrow> (Inl e, p\<lparr>rng := g3\<rparr>)
                | Inr doors \<Rightarrow>
                    (Inr (generate_inside p (extract_time_features ts),
                          generate_sleeping p (extract_time_features ts),
                          room1, windows, doors),
                     p\<lparr>rng := g3,
                       timeline_cache :=
                         Some (generate_inside p (extract_time_features ts),
                               generate_sleeping p (extract_time_features ts),
                               room1, windows, doors)\<rparr>))))"
  using assms
  by (simp add: Person_generate_def Let_def split: sum.splits)

text \<open>
  A first \<open>generate()\<close> returns normally when every count range can be sampled and, for
  each of room, window and door, the duration range can be sampled, or no event is ever
  asked for, or the person is nowhere inside and awake.
\<close>

lemma Person_generate_ok:
  assumes "timeline_cache p = None" and "person.timestamps p = Some ts"
    and "in_int64 (room_per_day p)" and "fst (room_per_day p) \<le> snd (room_per_day p)"
    and "in_int64 (room_duration p) \<and> fst (room_duration p) \<le> snd (room_duration p)
         \<or> snd (room_per_day p) \<le> 0
         \<or> \<not> has_valid_index (generate_inside p (extract_time_features ts))
               (generate_sleeping p (extract_time_features ts)) (length ts)"
    and "in_int64 (window_open_per_day p)"
    and "fst (window_open_per_day p) \<le> snd (window_open_per_day p)"
    and "in_int64 (window_open_duration p)
           \<and> fst (window_open_duration p) \<le> snd (window_open_duration p)
         \<or> snd (window_open_per_day p) \<le> 0
         \<or> \<not> has_valid_index (generate_inside p (extract_time_features ts))
               (generate_sleeping p (extract_time_features ts)) (length ts)"
    and "in_int64 (door_open_per_day p)"
    and "fst (door_open_per_day p) \<le> snd (door_open_per_day p)"
    and "in_int64 (door_open_duration p)
           \<and> fst (door_open_duration p) \<le> snd (door_open_duration p)
         \<or> snd (door_open_per_day p) \<le> 0
         \<or> \<not> has_valid_index (generate_inside p (extract_time_features ts))
               (generate_sleeping p (extract_time_features ts)) (length ts)"
  shows "\<exists>c. fst (Person_generate p) = Inr c"
proof -
  let ?tf = "extract_time_features ts"
  let ?ins = "generate_inside p ?tf"
  let ?sl = "generate_sleeping p ?tf"
  from generate_room1_ok[OF assms(3,4,5)] obtain room1 g1 where
    s1: "generate_room1 p ?tf ?ins ?sl (rng p) = (Inr room1, g1)" by blast
  from generate_window_state_ok[OF assms(6,7,8)] obtain windows g2 where
    s2: "generate_window_state p (length ts) ?tf ?ins ?sl g1 = (Inr windows, g2)" by blast
  from generate_door_state_ok[OF assms(9,10,11)] obtain doors g3 where
    s3: "generate_door_state p (length ts) ?tf ?ins ?sl g2 = (Inr doors, g3)" by blast
  show ?thesis by (simp add: Person_generate_stages[OF assms(1,2) s1 s2 s3])
qed

text \<open>
  With all bounds within the 64-bit integers, a first \<open>generate()\<close> raises nothing but
  NumPy's \<open>ValueError\<close> for an empty range, and caches nothing when it raises; it does
  raise as soon as one of its three stages does on every generator.
\<close>

lemma Person_generate_raises:
  assumes "timeline_cache p = None" and "person.timestamps p = Some ts"
    and "in_int64 (room_per_day p)" and "in_int64 (room_duration p)"
    and "in_int64 (window_open_per_day p)" and "in_int64 (window_open_duration p)"
    and "in_int64 (door_open_per_day p)" and "in_int64 (door_open_duration p)"
    and "Person_generate p = (Inl e, p')"
  shows "e = ValueError ''low >= high'' \<and> timeline_cache p' = None"
proof -
  let ?tf = "extract_time_features ts"
  let ?ins = "generate_inside p ?tf"
  let ?sl = "generate_sleeping p ?tf"
  obtain r1 g1 where s1: "generate_room1 p ?tf ?ins ?sl (rng p) = (r1, g1)"
    by (cases "generate_room1 p ?tf ?ins ?sl (rng p)")
  obtain r2 g2 where s2: "generate_window_state p (length ts) ?tf ?ins ?sl g1 = (r2, g2)"
    by (cases "generate_window_state p (length ts) ?tf ?ins ?sl g1")
  obtain r3 g3 where s3: "generate_door_state p (length ts) ?tf ?ins ?sl g2 = (r3, g3)"
    by (cases "generate_door_state p (length ts) ?tf ?ins ?sl g2")
  note st = Person_generate_stages[OF assms(1,2) s1 s2 s3]
  have e1: "r1 = Inl e' \<Longrightarrow> e' = ValueError ''low >= high''" for e'
    using s1 generate_room1_error[OF _ assms(3,4)] by blast
  have e2: "r2 = Inl e' \<Longrightarrow> e' = ValueError ''low >= high''" for e'
    using s2 generate_window_state_error[OF _ assms(5,6)] by blast
  have e3: "r3 = Inl e' \<Longrightarrow> e' = ValueError ''low >= high''" for e'
    using s3 generate_door_state_error[OF _ assms(7,8)] by blast
  from assms(9) e1 e2 e3 assms(1) show ?thesis
    by (auto simp: st split: sum.splits)
qed

lemma Person_generate_fails:
  assumes "timeline_cache p = None" and "person.timestamps p = Some ts"
    and "in_int64 (room_per_day p)" and "in_int64 (room_duration p)"
    and "in_int64 (window_open_per_day p)" and "in_int64 (window_open_duration p)"
    and "in_int64 (door_open_per_day p)" and "in_int64 (door_open_duration p)"
    and "(\<forall>g. \<exists>e g'. generate_room1 p (extract_time_features ts)
                 (generate_inside p (extract_time_features ts))
                 (generate_sleeping p (extract_time_features ts)) g = (Inl e, g'))
         \<or> (\<forall>g. \<exists>e g'. generate_window_state p (length ts) (extract_time_features ts)
                 (generate_inside p (extract_time_features ts))
                 (generate_sleeping p (extract_time_features ts)) g = (Inl e, g'))
         \<or> (\<forall>g. \<exists>e g'. generate_door_state p (length ts) (extract_time_features ts)
                 (generate_inside p (extract_time_features ts))
                 (generate_sleeping p (extract_time_features ts)) g = (Inl e, g'))"
  shows "fst (Person_generate p) = Inl (ValueError ''low >= high'')"
proof -
  let ?tf = "extract_time_features ts"
  let ?ins = "generate_inside p ?tf"
  let ?sl = "generate_sleeping p ?tf"
  obtain r1 g1 where s1: "generate_room1 p ?tf ?ins ?sl (rng p) = (r1, g1)"
    by (cases "generate_room1 p ?tf ?ins ?sl (rng p)")
  obtain r2 g2 where s2: "generate_window_state p (length ts) ?tf ?ins ?sl g1 = (r2, g2)"
    by (cases "generate_window_state p (length ts) ?tf ?ins ?sl g1")
  obtain r3 g3 where s3: "generate_door_state p (length ts) ?tf ?ins ?sl g2 = (r3, g3)"
    by (cases "generate_door_state p (length ts) ?tf ?ins ?sl g2")
  note st = Person_generate_stages[OF assms(1,2) s1 s2 s3]
  from assms(9) s1 s2 s3 have "(\<exists>e. r1 = Inl e) \<or> (\<exists>e. r2 = Inl e) \<or> (\<exists>e. r3 = Inl e)"
    by (metis fst_conv)
  then have "\<exists>e p'. Person_generate p = (Inl e, p')"
    unfolding st by (cases r1; cases r2; cases r3) simp_all
  then obtain e p' where run: "Person_generate p = (Inl e, p')" by blast
  from Person_generate_raises[OF assms(1-8) run] run show ?thesis by simp
qed

text \<open>
  Claim C9 says that \<open>generate()\<close> never completes when some range has
  \<open>low > high\<close>. Nothing validates the configuration: the error is NumPy's, raised
  when an empty range is sampled. A person with room durations \<open>(5, 2)\<close> and no room
  event per day never samples a duration, and \<open>generate()\<close> returns its arrays.
\<close>

theorem degenerate_duration_range_unnoticed:
  "fst (room_duration carol) > snd (room_duration carol)
   \<and> fst (Person_generate (set_timeline carol noon_axis)) = Inr ([1], [0], [0], [0], [0])"
  by code_simp

text \<open>
  Claim C9, amended. Take a first \<open>generate()\<close> on a bound axis, all range bounds
  lying within the 64-bit integers. Whatever the random stream: the only error it raises
  is NumPy's \<open>ValueError\<close> for an empty range, and it caches nothing then; on a
  non-empty axis it raises when some per-day count range has \<open>low > high\<close>; it
  raises when the person is inside and awake somewhere and some kind of event has a
  duration range with \<open>low > high\<close> and at least one event per day; and it returns
  its arrays when every count range has \<open>low \<le> high\<close> and each kind has a duration
  range with \<open>low \<le> high\<close>, or no event on any day, or no index at which the
  person is inside and awake: a degenerate duration range then goes unnoticed. No range
  is clamped.
\<close>

theorem degenerate_range_raises_when_sampled:
  "timeline_cache p = None \<longrightarrow> person.timestamps p = Some ts \<longrightarrow>
   in_int64 (room_per_day p) \<longrightarrow> in_int64 (room_duration p) \<longrightarrow>
   in_int64 (window_open_per_day p) \<longrightarrow> in_int64 (window_open_duration p) \<longrightarrow>
   in_int64 (door_open_per_day p) \<longrightarrow> in_int64 (door_open_duration p) \<longrightarrow>
     (\<forall>e p'. Person_generate p = (Inl e, p') \<longrightarrow>
        e = ValueError ''low >= high'' \<and> timeline_cache p' = None)
     \<and> (ts \<noteq> [] \<longrightarrow>
          (fst (room_per_day p) > snd (room_per_day p)
           \<or> fst (window_open_per_day p) > snd (window_open_per_day p)
           \<or> fst (door_open_per_day p) > snd (door_open_per_day p)) \<longrightarrow>
          fst (Person_generate p) = Inl (ValueError ''low >= high''))
     \<and> (has_valid_index (generate_inside p (extract_time_features ts))
           (generate_sleeping p (extract_time_features ts)) (length ts) \<longrightarrow>
          (1 \<le> fst (room_per_day p) \<and> fst (room_duration p) > snd (room_duration p)
           \<or> 1 \<le> fst (window_open_per_day p)
               \<and> fst (window_open_duration p) > snd (window_open_duration p)
           \<or> 1 \<le> fst (door_open_per_day p)
               \<and> fst (door_open_duration p) > snd (door_open_duration p)) \<longrightarrow>
          fst (Person_generate p) = Inl (ValueError ''low >= high''))
     \<and> (fst (room_per_day p) \<le> snd (room_per_day p) \<longrightarrow>
        fst (window_open_per_day p) \<le> snd (window_open_per_day p) \<longrightarrow>
        fst (door_open_per_day p) \<le> snd (door_open_per_day p) \<longrightarrow>
        (fst (room_duration p) \<le> snd (room_duration p) \<or> snd (room_per_day p) \<le> 0
         \<or> \<not> has_valid_index (generate_inside p (extract_time_features ts))
               (generate_sleeping p (extract_time_features ts)) (length ts)) \<longrightarrow>
        (fst (window_open_duration p) \<le> snd (window_open_duration p)
         \<or> snd (window_open_per_day p) \<le> 0
         \<or> \<not> has_valid_index (generate_inside p (extract_time_features ts))
               (generate_sleeping p (extract_time_features ts)) (length ts)) \<longrightarrow>
        (fst (door_open_duration p) \<le> snd (door_open_duration p)
         \<or> snd (door_open_per_day p) \<le> 0
         \<or> \<not> has_valid_index (generate_inside p (extract_time_features ts))
               (generate_sleeping p (extract_time_features ts)) (length ts)) \<longrightarrow>
        (\<exists>c. fst (Person_generate p) = Inr c))"
proof (intro impI)
  assume fresh: "timeline_cache p = None" and ts: "person.timestamps p = Some ts"
    and b: "in_int64 (room_per_day p)" "in_int64 (room_duration p)"
      "in_int64 (window_open_per_day p)" "in_int64 (window_open_duration p)"
      "in_int64 (door_open_per_day p)" "in_int64 (door_open_duration p)"
  let ?tf = "extract_time_features ts"
  let ?ins = "generate_inside p ?tf"
  let ?sl = "generate_sleeping p ?tf"
  note fails = Person_generate_fails[OF fresh ts b]
  have A: "\<forall>e p'. Person_generate p = (Inl e, p') \<longrightarrow>
        e = ValueError ''low >= high'' \<and> timeline_cache p' = None"
    using Person_generate_raises[OF fresh ts b] by blast
  have B: "fst (Person_generate p) = Inl (ValueError ''low >= high'')"
    if ne: "ts \<noteq> []"
      and deg: "fst (room_per_day p) > snd (room_per_day p)
           \<or> fst (window_open_per_day p) > snd (window_open_per_day p)
           \<or> fst (door_open_per_day p) > snd (door_open_per_day p)"
    using deg
  proof (elim disjE)
    assume "fst (room_per_day p) > snd (room_per_day p)"
    from generate_room1_degenerate[OF b(1) this ne] show ?thesis
      by (intro fails disjI1) simp
  next
    assume "fst (window_open_per_day p) > snd (window_open_per_day p)"
    from generate_window_state_degenerate[OF b(3) this ne] show ?thesis
      by (intro fails disjI2 disjI1) simp
  next
    assume "fst (door_open_per_day p) > snd (door_open_per_day p)"
    from generate_door_state_degenerate[OF b(5) this ne] show ?thesis
      by (intro fails disjI2) simp
  qed
  have C: "fst (Person_generate p) = Inl (ValueError ''low >= high'')"
    if v: "has_valid_index ?ins ?sl (length ts)"
      and deg: "1 \<le> fst (room_per_day p) \<and> fst (room_duration p) > snd (room_duration p)
           \<or> 1 \<le> fst (window_open_per_day p)
               \<and> fst (window_open_duration p) > snd (window_open_duration p)
           \<or> 1 \<le> fst (door_open_per_day p)
               \<and> fst (door_open_duration p) > snd (door_open_duration p)"
    using deg
  proof (elim disjE conjE)
    assume "1 \<le> fst (room_per_day p)" "fst (room_duration p) > snd (room_duration p)"
    from generate_room1_fails[OF b(1,2) this v] show ?thesis
      by (intro fails disjI1) blast
  next
    assume "1 \<le> fst (window_open_per_day p)"
      "fst (window_open_duration p) > snd (window_open_duration p)"
    from generate_window_state_fails[OF b(3,4) this v] show ?thesis
      by (intro fails disjI2 disjI1) blast
  next
    assume "1 \<le> fst (door_open_per_day p)"
      "fst (door_open_duration p) > snd (door_open_duration p)"
    from generate_door_state_fails[OF b(5,6) this v] show ?thesis
      by (intro fails disjI2) blast
  qed
  have D: "\<exists>c. fst (Person_generate p) = Inr c"
    if "fst (room_per_day p) \<le> snd (room_per_day p)"
      "fst (window_open_per_day p) \<le> snd (window_open_per_day p)"
      "fst (door_open_per_day p) \<le> snd (door_open_per_day p)"
      "fst (room_duration p) \<le> snd (room_duration p) \<or> snd (room_per_day p) \<le> 0
         \<or> \<not> has_valid_index ?ins ?sl (length ts)"
      "fst (window_open_duration p) \<le> snd (window_open_duration p)
         \<or> snd (window_open_per_day p) \<le> 0
         \<or> \<not> has_valid_index ?ins ?sl (length ts)"
      "fst (door_open_duration p) \<le> snd (door_open_duration p)
         \<or> snd (door_open_per_day p) \<le> 0
         \<or> \<not> has_valid_index ?ins ?sl (length ts)"
    using fresh ts b(1) that(1) _ b(3) that(2) _ b(5) that(3)
  proof (rule Person_generate_ok)
    show "in_int64 (room_duration p) \<and> fst (room_duration p) \<le> snd (room_duration p)
         \<or> snd (room_per_day p) \<le> 0 \<or> \<not> has_valid_index ?ins ?sl (length ts)"
      using that(4) b(2) by blast
    show "in_int64 (window_open_duration p)
           \<and> fst (window_open_duration p) \<le> snd (window_open_duration p)
         \<or> snd (window_open_per_day p) \<le> 0 \<or> \<not> has_valid_index ?ins ?sl (length ts)"
      using that(5) b(4) by blast
    show "in_int64 (door_open_duration p)
           \<and> fst (door_open_duration p) \<le> snd (door_open_duration p)
         \<or> snd (door_open_per_day p) \<le> 0 \<or> \<not> has_valid_index ?ins ?sl (length ts)"
      using that(6) b(6) by blast
  qed
  from A B C D show "(\<forall>e p'. Person_generate p = (Inl e, p') \<longrightarrow>
        e = ValueError ''low >= high'' \<and> timeline_cache p' = None)
     \<and> (ts \<noteq> [] \<longrightarrow>
          (fst (room_per_day p) > snd (room_per_day p)
           \<or> fst (window_open_per_day p) > snd (window_open_per_day p)
           \<or> fst (door_open_per_day p) > snd (door_open_per_day p)) \<longrightarrow>
          fst (Person_generate p) = Inl (ValueError ''low >= high''))
     \<and> (has_valid_index (generate_inside p (extract_time_features ts))
           (generate_sleeping p (extract_time_features ts)) (length ts) \<longrightarrow>
          (1 \<le> fst (room_per_day p) \<and> fst (room_duration p) > snd (room_duration p)
           \<or> 1 \<le> fst (window_open_per_day p)
               \<and> fst (window_open_duration p) > snd (window_open_duration p)
           \<or> 1 \<le> fst (door_open_per_day p)
               \<and> fst (door_open_duration p) > snd (door_open_duration p)) \<longrightarrow>
          fst (Person_generate p) = Inl (ValueError ''low >= high''))
     \<and> (fst (room_per_day p) \<le> snd (room_per_day p) \<longrightarrow>
        fst (window_open_per_day p) \<le> snd (window_open_per_day p) \<longrightarrow>
        fst (door_open_per_day p) \<le> snd (door_open_per_day p) \<longrightarrow>
        (fst (room_duration p) \<le> snd (room_duration p) \<or> snd (room_per_day p) \<le> 0
         \<or> \<not> has_valid_index (generate_inside p (extract_time_features ts))
               (generate_sleeping p (extract_time_features ts)) (length ts)) \<longrightarrow>
        (fst (window_open_duration p) \<le> snd (window_open_duration p)
         \<or> snd (window_open_per_day p) \<le> 0
         \<or> \<not> has_valid_index (generate_inside p (extract_time_features ts))
               (generate_sleeping p (extract_time_features ts)) (length ts)) \<longrightarrow>
        (fst (door_open_duration p) \<le> snd (door_open_duration p)
         \<or> snd (door_open_per_day p) \<le> 0
         \<or> \<not> has_valid_index (generate_inside p (extract_time_features ts))
               (generate_sleeping p (extract_time_features ts)) (length ts)) \<longrightarrow>
        (\<exists>c. fst (Person_generate p) = Inr c))"
    by blast
qed

theorem degenerate_range_raises_when_sampled_witness:
  "fst (window_open_per_day (set_timeline (alice\<lparr>window_open_per_day := (3, 1)\<rparr>) morning_axis))
       > snd (window_open_per_day (set_timeline (alice\<lparr>window_open_per_day := (3, 1)\<rparr>) morning_axis))
   \<and> morning_axis \<noteq> []
   \<and> fst (Person_generate (set_timeline (alice\<lparr>window_open_per_day := (3, 1)\<rparr>) morning_axis))
       = Inl (ValueError ''low >= high'')
   \<and> 1 \<le> fst (room_per_day (set_timeline (alice\<lparr>room_duration := (5, 2)\<rparr>) morning_axis))
   \<and> fst (room_duration (set_timeline (alice\<lparr>room_duration := (5, 2)\<rparr>) morning_axis))
       > snd (room_duration (set_timeline (alice\<lparr>room_duration := (5, 2)\<rparr>) morning_axis))
   \<and> has_valid_index
         (generate_inside (set_timeline (alice\<lparr>room_duration := (5, 2)\<rparr>) morning_axis)
            (extract_time_features morning_axis))
         (generate_sleeping (set_timeline (alice\<lparr>room_duration := (5, 2)\<rparr>) morning_axis)
            (extract_time_features morning_axis))
         (length morning_axis)
   \<and> fst (Person_generate (set_timeline (alice\<lparr>room_duration := (5, 2)\<rparr>) morning_axis))
       = Inl (ValueError ''low >= high'')
   \<and> fst (room_duration (set_timeline carol noon_axis))
       > snd (room_duration (set_timeline carol noon_axis))
   \<and> snd (room_per_day (set_timeline carol noon_axis)) \<le> 0
   \<and> (\<exists>c. fst (Person_generate (set_timeline carol noon_axis)) = Inr c)"
proof -
  let ?p1 = "set_timeline (alice\<lparr>window_open_per_day := (3, 1)\<rparr>) morning_axis"
  let ?p2 = "set_timeline (alice\<lparr>room_duration := (5, 2)\<rparr>) morning_axis"
  let ?p3 = "set_timeline carol noon_axis"
  have f1: "timeline_cache ?p1 = None" and t1: "person.timestamps ?p1 = Some morning_axis"
    and f2: "timeline_cache ?p2 = None" and t2: "person.timestamps ?p2 = Some morning_axis"
    and f3: "timeline_cache ?p3 = None" and t3: "person.timestamps ?p3 = Some noon_axis"
    by (simp_all add: set_timeline_def)
  have b1: "in_int64 (room_per_day ?p1)" "in_int64 (room_duration ?p1)"
      "in_int64 (window_open_per_day ?p1)" "in_int64 (window_open_duration ?p1)"
      "in_int64 (door_open_per_day ?p1)" "in_int64 (door_open_duration ?p1)"
    by code_simp+
  have b2: "in_int64 (room_per_day ?p2)" "in_int64 (room_duration ?p2)"
      "in_int64 (window_open_per_day ?p2)" "in_int64 (window_open_duration ?p2)"
      "in_int64 (door_open_per_day ?p2)" "in_int64 (door_open_duration ?p2)"
    by code_simp+
  have b3: "in_int64 (room_per_day ?p3)" "in_int64 (room_duration ?p3)"
      "in_int64 (window_open_per_day ?p3)" "in_int64 (window_open_duration ?p3)"
      "in_int64 (door_open_per_day ?p3)" "in_int64 (door_open_duration ?p3)"
    by code_simp+
  have ne: "morning_axis \<noteq> []" by (simp add: morning_axis_def)
  have d1: "fst (window_open_per_day ?p1) > snd (window_open_per_day ?p1)"
    by (simp add: set_timeline_def)
  have c2: "1 \<le> fst (room_per_day ?p2)" by code_simp
  have d2: "fst (room_duration ?p2) > snd (room_duration ?p2)" by (simp add: set_timeline_def)
  have v2: "has_valid_index (generate_inside ?p2 (extract_time_features morning_axis))
         (generate_sleeping ?p2 (extract_time_features morning_axis)) (length morning_axis)"
    by code_simp
  have d3: "fst (room_duration ?p3) > snd (room_duration ?p3)" by code_simp
  have c3: "snd (room_per_day ?p3) \<le> 0" "snd (window_open_per_day ?p3) \<le> 0"
      "snd (door_open_per_day ?p3) \<le> 0"
      "fst (room_per_day ?p3) \<le> snd (room_per_day ?p3)"
      "fst (window_open_per_day ?p3) \<le> snd (window_open_per_day ?p3)"
      "fst (door_open_per_day ?p3) \<le> snd (door_open_per_day ?p3)"
    by code_simp+
  note i1 = degenerate_range_raises_when_sampled[of ?p1 morning_axis, rule_format, OF f1 t1 b1]
  note i2 = degenerate_range_raises_when_sampled[of ?p2 morning_axis, rule_format, OF f2 t2 b2]
  note i3 = degenerate_range_raises_when_sampled[of ?p3 noon_axis, rule_format, OF f3 t3 b3]
  from i1 ne d1 have r1: "fst (Person_generate ?p1) = Inl (ValueError ''low >= high'')"
    by blast
  from i2 v2 c2 d2 have r2: "fst (Person_generate ?p2) = Inl (ValueError ''low >= high'')"
    by blast
  from i3 c3 have r3: "\<exists>c. fst (Person_generate ?p3) = Inr c"
    by blast
  from d1 ne r1 c2 d2 v2 r2 d3 c3(1) r3 show ?thesis by blast
qed

section \<open>The end-to-end scenario\<close>

lemma door_fill_keeps_marks:
  "keeps_marks marks state \<Longrightarrow> keeps_marks marks (door_fill n is state)"
proof (induction "is" arbitrary: state)
  case Nil
  then show ?case by simp
next
  case (Cons i "is")
  have "keeps_marks marks (state[i := 1])"
    using Cons.prems
    by (cases "i < length state") (auto simp: keeps_marks_def nth_list_update)
  with Cons show ?case by simp
qed

text \<open>
  The fill of a door event over \<open>range(a, b)\<close> marks every index of the range below
  the axis length, with no test of presence or sleep.
\<close>

lemma door_fill_range:
  "i < length state \<Longrightarrow>
   door_fill n [a..<b] state ! i = (if a \<le> i \<and> i < b \<and> i < n then 1 else state ! i)"
proof (induction "b - a" arbitrary: a state)
  case 0
  then show ?case by auto
next
  case (Suc k)
  then have ab: "a < b" and k: "k = b - Suc a" by auto
  have upt: "[a..<b] = a # [Suc a..<b]" using ab by (simp add: upt_conv_Cons)
  show ?case
  proof (cases "a \<ge> n")
    case True
    then show ?thesis using upt by auto
  next
    case False
    have len: "i < length (state[a := 1])" using Suc.prems by simp
    from Suc.hyps(1)[OF k len] upt False Suc.prems ab show ?thesis
      by (auto simp: nth_list_update)
  qed
qed

lemma generate_door_state_keeps_marks:
  assumes "generate_door_state p n tf inside sleeping g = (Inr doors, g')"
  shows "keeps_marks (door_transitions n inside) doors"
proof -
  have init: "keeps_marks (door_transitions n inside) (door_transitions n inside)"
    by (simp add: keeps_marks_def)
  show ?thesis
    using assms unfolding generate_door_state_def
    by (rule sample_days_invariant[where P = "keeps_marks (door_transitions n inside)"])
       (rule init, rule door_fill_keeps_marks)
qed

lemma door_transitions_nth:
  "i < n \<Longrightarrow> door_transitions n inside ! i
     = (if i = 0 then 0 else if inside ! i \<noteq> inside ! (i - 1) then 1 else 0)"
  by (simp add: door_transitions_def)

lemma generate_inside_nth:
  "i < length ts \<Longrightarrow>
   generate_inside p (extract_time_features ts) ! i
     = (if is_outside p (hours (extract_time_features ts) ! i)
                        (weekday (extract_time_features ts) ! i) then 0 else 1)"
  by (simp add: generate_inside_def)

lemma scenario_axis_length [simp]: "length (scenario_axis day) = 1440"
  by (simp add: scenario_axis_def)

lemma scenario_axis_nth:
  "i < 1440 \<Longrightarrow> scenario_axis day ! i = 86400 * day + 60 * int i"
  by (simp add: scenario_axis_def)

lemma scenario_second_of_day:
  assumes "i < 1440"
  shows "(86400 * day + 60 * int i) mod 86400 = 60 * int i"
    and "(86400 * day + 60 * int i) div 86400 = day"
proof -
  have b: "0 \<le> 60 * int i" "60 * int i < 86400" using assms by auto
  show "(86400 * day + 60 * int i) mod 86400 = 60 * int i"
    using b by (simp add: mod_pos_pos_trivial)
  show "(86400 * day + 60 * int i) div 86400 = day"
    using b by (simp add: div_pos_pos_trivial)
qed

lemma scenario_weekday:
  "i < 1440 \<Longrightarrow> weekday (extract_time_features (scenario_axis day)) ! i = (day + 3) mod 7"
  by (simp add: extract_time_features_def scenario_axis_nth scenario_second_of_day)

lemma scenario_hours:
  "i < 1440 \<Longrightarrow> hours (extract_time_features (scenario_axis day)) ! i
      = of_int (int i div 60) + of_int (int i mod 60) / 60"
proof -
  assume i: "i < 1440"
  have a: "60 * int i div 3600 = int i div 60" by simp
  have b: "60 * int i mod 3600 div 60 = int i mod 60"
  proof -
    have "60 * int i mod 3600 = 60 * (int i mod 60)"
      using mult_mod_right[of 60 "int i" 60] by simp
    then show ?thesis by simp
  qed
  have c: "60 * int i mod 60 = 0" by simp
  show ?thesis
    using i by (simp add: extract_time_features_def scenario_axis_nth scenario_second_of_day a b c)
qed

lemma hour_ge_int:
  assumes "0 \<le> r" and "r < 60"
  shows "(of_int a \<le> (of_int q + of_int r / 60 :: rat)) \<longleftrightarrow> a \<le> q"
proof -
  have f0: "(0::rat) \<le> of_int r / 60" using assms by simp
  have f1: "(of_int r / 60 :: rat) < 1" using assms by simp
  show ?thesis
  proof
    assume "of_int a \<le> (of_int q + of_int r / 60 :: rat)"
    with f1 have "(of_int a :: rat) < of_int q + 1" by linarith
    then have "(of_int a :: rat) < of_int (q + 1)" by simp
    then have "a < q + 1" by (simp only: of_int_less_iff)
    then show "a \<le> q" by simp
  next
    assume "a \<le> q"
    then have "(of_int a :: rat) \<le> of_int q" by simp
    with f0 show "of_int a \<le> (of_int q + of_int r / 60 :: rat)" by linarith
  qed
qed

lemma hour_less_int:
  assumes "0 \<le> r" and "r < 60"
  shows "((of_int q + of_int r / 60 :: rat) < of_int a) \<longleftrightarrow> q < a"
  using hour_ge_int[OF assms, of a q] by (simp add: not_le[symmetric])

lemma scenario_hour_ge:
  "i < 1440 \<Longrightarrow>
   (of_int a \<le> hours (extract_time_features (scenario_axis day)) ! i) \<longleftrightarrow> a \<le> int i div 60"
  by (simp add: scenario_hours hour_ge_int)

lemma scenario_hour_less:
  "i < 1440 \<Longrightarrow>
   (hours (extract_time_features (scenario_axis day)) ! i < of_int a) \<longleftrightarrow> int i div 60 < a"
  by (simp add: scenario_hours hour_less_int)

lemma scenario_sleeping:
  assumes "sleep_hours p = (23, 7)" and "i < 1440"
  shows "generate_sleeping p (extract_time_features (scenario_axis day)) ! i
           = (if i < 420 \<or> 1380 \<le> i then 1 else 0)"
proof -
  have "is_sleeping (23, 7) (hours (extract_time_features (scenario_axis day)) ! i)
          \<longleftrightarrow> 23 \<le> int i div 60 \<or> int i div 60 < 7"
    using scenario_hour_ge[OF assms(2), of 23 day] scenario_hour_less[OF assms(2), of day 7]
    by (simp add: is_sleeping_def)
  also have "\<dots> \<longleftrightarrow> i < 420 \<or> 1380 \<le> i" by auto
  finally show ?thesis using assms by (simp add: generate_sleeping_nth)
qed

lemma scenario_inside_weekday:
  assumes "outside_hours_weekdays p = [(9, 17)]" and "(day + 3) mod 7 < 5" and "i < 1440"
  shows "generate_inside p (extract_time_features (scenario_axis day)) ! i
           = (if 540 \<le> i \<and> i < 1020 then 0 else 1)"
proof -
  have "is_outside p (hours (extract_time_features (scenario_axis day)) ! i)
                     (weekday (extract_time_features (scenario_axis day)) ! i)
          \<longleftrightarrow> 9 \<le> int i div 60 \<and> int i div 60 < 17"
    using scenario_hour_ge[OF assms(3), of 9 day] scenario_hour_less[OF assms(3), of day 17]
      assms(1,2)
    by (simp add: is_outside_def scenario_weekday[OF assms(3)])
  also have "\<dots> \<longleftrightarrow> 540 \<le> i \<and> i < 1020" by auto
  finally show ?thesis using assms(3) by (simp add: generate_inside_nth)
qed

lemma scenario_arrays:
  assumes fresh: "timeline_cache p = None"
    and ts: "person.timestamps p = Some (scenario_axis day)"
    and oh: "outside_hours_weekdays p = [(9, 17)]" and sh: "sleep_hours p = (23, 7)"
    and gen: "fst (Person_generate p) = Inr (inside, sleeping, room1, windows, doors)"
    and i: "i < 1440"
  shows "(room1 ! i = 1 \<longrightarrow> inside ! i = 1 \<and> sleeping ! i = 0)
           \<and> (windows ! i = 1 \<longrightarrow> inside ! i = 1 \<and> sleeping ! i = 0)
           \<and> (0 < i \<longrightarrow> inside ! i \<noteq> inside ! (i - 1) \<longrightarrow> doors ! i = 1)
           \<and> (sleeping ! i = 1 \<longleftrightarrow> i < 420 \<or> 1380 \<le> i)
           \<and> ((day + 3) mod 7 < 5 \<longrightarrow> (inside ! i = 0 \<longleftrightarrow> 540 \<le> i \<and> i < 1020))"
proof -
  from fresh gen obtain ts' g1 g2 g3 where
    ts': "person.timestamps p = Some ts'"
    and ins: "inside = generate_inside p (extract_time_features ts')"
    and sl: "sleeping = generate_sleeping p (extract_time_features ts')"
    and r1: "generate_room1 p (extract_time_features ts') inside sleeping (rng p)
               = (Inr room1, g1)"
    and win: "generate_window_state p (length ts') (extract_time_features ts') inside sleeping g1
               = (Inr windows, g2)"
    and dr: "generate_door_state p (length ts') (extract_time_features ts') inside sleeping g2
               = (Inr doors, g3)"
    by (rule Person_generate_fresh)
  from ts ts' have eq: "ts' = scenario_axis day" by simp
  have cr: "confined inside sleeping room1" using r1 by (rule generate_room1_confined)
  have cw: "confined inside sleeping windows" using win by (rule generate_window_state_confined)
  have lw: "length windows = 1440" using generate_window_state_length[OF win] eq by simp
  have lr: "length room1 = 1440"
  proof -
    have "length room1 = length (replicate (length (hours (extract_time_features ts'))) (0::int))"
    proof (cases "length (hours (extract_time_features ts')) = 0")
      case True
      with r1 show ?thesis by (simp add: generate_room1_def)
    next
      case False
      with r1 have
        "for_each (get_day_indices (extract_time_features ts'))
           (sample_day (room_per_day p) (room_duration p) inside sleeping
              (room1_fill (length (hours (extract_time_features ts'))) inside sleeping))
           (replicate (length (hours (extract_time_features ts'))) 0) (rng p) = (Inr room1, g1)"
        by (simp add: generate_room1_def Let_def)
      then show ?thesis
        by (rule sample_days_invariant[where P = "\<lambda>s. length s
              = length (replicate (length (hours (extract_time_features ts'))) (0::int))"])
           simp_all
    qed
    then show ?thesis using eq by simp
  qed
  have km: "keeps_marks (door_transitions 1440 inside) doors"
    using generate_door_state_keeps_marks[OF dr] eq by simp
  have one: "inside ! i \<noteq> 0 \<Longrightarrow> inside ! i = 1"
    using generate_inside_values[of i p "extract_time_features ts'"] i ins eq by simp
  have a: "room1 ! i = 1 \<longrightarrow> inside ! i = 1 \<and> sleeping ! i = 0"
    using cr i lr one by (auto simp: confined_def)
  have b: "windows ! i = 1 \<longrightarrow> inside ! i = 1 \<and> sleeping ! i = 0"
    using cw i lw one by (auto simp: confined_def)
  have d: "0 < i \<longrightarrow> inside ! i \<noteq> inside ! (i - 1) \<longrightarrow> doors ! i = 1"
    using km i by (auto simp: keeps_marks_def door_transitions_nth door_transitions_def)
  have e: "sleeping ! i = 1 \<longleftrightarrow> i < 420 \<or> 1380 \<le> i"
    using scenario_sleeping[OF sh i, of day] sl eq by simp
  have f: "(day + 3) mod 7 < 5 \<longrightarrow> (inside ! i = 0 \<longleftrightarrow> 540 \<le> i \<and> i < 1020)"
    using scenario_inside_weekday[OF oh _ i, of day] ins eq by simp
  from a b d e f show ?thesis by blast
qed

lemma alice_scenario_returns:
  "\<exists>c. fst (Person_generate (set_timeline alice (scenario_axis day))) = Inr c"
  by (rule Person_generate_ok[where ts = "scenario_axis day"])
     (simp_all add: set_timeline_def alice_def Person_init_def in_int64_def int64_min_def
        int64_max_def)

text \<open>
  Claim C2 says that in the scenario every index marked in room1, window and door is one
  at which the person is inside and awake. The door is marked wherever presence changes,
  and on a weekday presence changes at 09:00: index 540 is the first minute outside, and
  the door is open there.
\<close>

theorem scenario_door_open_while_outside:
  "(case fst (Person_generate (set_timeline alice (scenario_axis 20089))) of
      Inl e \<Rightarrow> False
    | Inr (inside, sleeping, room1, windows, doors) \<Rightarrow> doors ! 540 = 1 \<and> inside ! 540 = 0)"
proof -
  let ?p = "set_timeline alice (scenario_axis 20089)"
  from alice_scenario_returns obtain c where "fst (Person_generate ?p) = Inr c" by blast
  then obtain inside sleeping room1 windows doors where
    gen: "fst (Person_generate ?p) = Inr (inside, sleeping, room1, windows, doors)"
    by (cases c) auto
  have h1: "timeline_cache ?p = None" by (simp add: set_timeline_def)
  have h2: "person.timestamps ?p = Some (scenario_axis 20089)" by (simp add: set_timeline_def)
  have h3: "outside_hours_weekdays ?p = [(9, 17)]"
    by (simp add: set_timeline_def alice_def Person_init_def)
  have h4: "sleep_hours ?p = (23, 7)" by (simp add: set_timeline_def alice_def Person_init_def)
  have wd: "((20089::int) + 3) mod 7 < 5" by simp
  from scenario_arrays[OF h1 h2 h3 h4 gen, of 540] wd
  have a: "inside ! 540 = 0" and d: "inside ! 540 \<noteq> inside ! 539 \<longrightarrow> doors ! 540 = 1"
    by simp_all
  from scenario_arrays[OF h1 h2 h3 h4 gen, of 539] wd have b: "inside ! 539 \<noteq> 0" by simp
  from a b d show ?thesis by (simp add: gen)
qed

text \<open>
  Claim C2, amended. In the scenario (the 1440 minutes of one day, outside hours 9 to 17
  on weekdays, sleep hours 23 to 7), whatever the random stream, every index marked in
  room1 and in window is one at which the person is inside and awake; the door is marked
  at every index where presence differs from the index before, inside or not. Sleeping
  is 1 exactly before 07:00 and from 23:00, and on a weekday inside is 0 exactly from
  09:00 to 17:00. The fill of a random door event over \<open>range(a, b)\<close> marks every
  index of the range below the axis length, whatever presence and sleep are there: on
  the axis 08:00, 08:30, 09:00, 09:30 of a weekday, a door event of three indices that
  starts at 08:30 leaves the door open at 09:30, half an hour after the person went out.
\<close>

theorem scenario_room_and_window_confined:
  "(timeline_cache p = None \<longrightarrow> person.timestamps p = Some (scenario_axis day) \<longrightarrow>
    outside_hours_weekdays p = [(9, 17)] \<longrightarrow> sleep_hours p = (23, 7) \<longrightarrow>
    (case fst (Person_generate p) of
       Inl e \<Rightarrow> True
     | Inr (inside, sleeping, room1, windows, doors) \<Rightarrow>
         (\<forall>i<1440.
            (room1 ! i = 1 \<longrightarrow> inside ! i = 1 \<and> sleeping ! i = 0)
            \<and> (windows ! i = 1 \<longrightarrow> inside ! i = 1 \<and> sleeping ! i = 0)
            \<and> (0 < i \<longrightarrow> inside ! i \<noteq> inside ! (i - 1) \<longrightarrow> doors ! i = 1)
            \<and> (sleeping ! i = 1 \<longleftrightarrow> i < 420 \<or> 1380 \<le> i)
            \<and> ((day + 3) mod 7 < 5 \<longrightarrow> (inside ! i = 0 \<longleftrightarrow> 540 \<le> i \<and> i < 1020)))))
   \<and> (\<forall>i<length door_state.
         door_fill n [a..<b] door_state ! i
           = (if a \<le> i \<and> i < b \<and> i < n then 1 else door_state ! i))
   \<and> fst (Person_generate (set_timeline dora morning_axis))
       = Inr ([1, 1, 0, 0], [0, 0, 0, 0], [0, 0, 0, 0], [0, 0, 0, 0], [0, 1, 1, 1])"
proof (intro conjI impI)
  assume fresh: "timeline_cache p = None"
    and ts: "person.timestamps p = Some (scenario_axis day)"
    and oh: "outside_hours_weekdays p = [(9, 17)]" and sh: "sleep_hours p = (23, 7)"
  show "case fst (Person_generate p) of
      Inl e \<Rightarrow> True
    | Inr (inside, sleeping, room1, windows, doors) \<Rightarrow>
        (\<forall>i<1440.
           (room1 ! i = 1 \<longrightarrow> inside ! i = 1 \<and> sleeping ! i = 0)
           \<and> (windows ! i = 1 \<longrightarrow> inside ! i = 1 \<and> sleeping ! i = 0)
           \<and> (0 < i \<longrightarrow> inside ! i \<noteq> inside ! (i - 1) \<longrightarrow> doors ! i = 1)
           \<and> (sleeping ! i = 1 \<longleftrightarrow> i < 420 \<or> 1380 \<le> i)
           \<and> ((day + 3) mod 7 < 5 \<longrightarrow> (inside ! i = 0 \<longleftrightarrow> 540 \<le> i \<and> i < 1020)))"
  proof (cases "fst (Person_generate p)")
    case (Inl e)
    then show ?thesis by simp
  next
    case (Inr c)
    obtain inside sleeping room1 windows doors where
      c: "c = (inside, sleeping, room1, windows, doors)" by (cases c)
    from scenario_arrays[OF fresh ts oh sh Inr[unfolded c]]
    show ?thesis by (simp add: Inr c)
  qed
next
  show "\<forall>i<length door_state.
         door_fill n [a..<b] door_state ! i
           = (if a \<le> i \<and> i < b \<and> i < n then 1 else door_state ! i)"
    by (intro allI impI) (rule door_fill_range)
next
  show "fst (Person_generate (set_timeline dora morning_axis))
       = Inr ([1, 1, 0, 0], [0, 0, 0, 0], [0, 0, 0, 0], [0, 0, 0, 0], [0, 1, 1, 1])"
    by code_simp
qed

theorem scenario_room_and_window_confined_witness:
  "timeline_cache (set_timeline alice (scenario_axis 20089)) = None
   \<and> person.timestamps (set_timeline alice (scenario_axis 20089)) = Some (scenario_axis 20089)
   \<and> outside_hours_weekdays (set_timeline alice (scenario_axis 20089)) = [(9, 17)]
   \<and> sleep_hours (set_timeline alice (scenario_axis 20089)) = (23, 7)
   \<and> (case fst (Person_generate (set_timeline alice (scenario_axis 20089))) of
        Inl e \<Rightarrow> False
      | Inr (inside, sleeping, room1, windows, doors) \<Rightarrow>
          inside ! 600 = 0 \<and> room1 ! 600 \<noteq> 1 \<and> windows ! 600 \<noteq> 1
          \<and> sleeping ! 100 = 1 \<and> room1 ! 100 \<noteq> 1 \<and> windows ! 100 \<noteq> 1)
   \<and> 3 < length [0, 0, 1, 0 :: int]
   \<and> door_fill 4 [1..<4] [0, 0, 1, 0] ! 3 = 1"
proof -
  let ?p = "set_timeline alice (scenario_axis 20089)"
  from alice_scenario_returns obtain c where "fst (Person_generate ?p) = Inr c" by blast
  then obtain inside sleeping room1 windows doors where
    gen: "fst (Person_generate ?p) = Inr (inside, sleeping, room1, windows, doors)"
    by (cases c) auto
  have h1: "timeline_cache ?p = None" by (simp add: set_timeline_def)
  have h2: "person.timestamps ?p = Some (scenario_axis 20089)" by (simp add: set_timeline_def)
  have h3: "outside_hours_weekdays ?p = [(9, 17)]"
    by (simp add: set_timeline_def alice_def Person_init_def)
  have h4: "sleep_hours ?p = (23, 7)" by (simp add: set_timeline_def alice_def Person_init_def)
  from scenario_room_and_window_confined[of ?p 20089, THEN conjunct1] h1 h2 h3 h4 gen
  have all: "\<forall>i<1440.
           (room1 ! i = 1 \<longrightarrow> inside ! i = 1 \<and> sleeping ! i = 0)
           \<and> (windows ! i = 1 \<longrightarrow> inside ! i = 1 \<and> sleeping ! i = 0)
           \<and> (0 < i \<longrightarrow> inside ! i \<noteq> inside ! (i - 1) \<longrightarrow> doors ! i = 1)
           \<and> (sleeping ! i = 1 \<longleftrightarrow> i < 420 \<or> 1380 \<le> i)
           \<and> (((20089::int) + 3) mod 7 < 5 \<longrightarrow> (inside ! i = 0 \<longleftrightarrow> 540 \<le> i \<and> i < 1020))"
    by simp
  from all[rule_format, of 600] all[rule_format, of 100]
  have "inside ! 600 = 0 \<and> room1 ! 600 \<noteq> 1 \<and> windows ! 600 \<noteq> 1
          \<and> sleeping ! 100 = 1 \<and> room1 ! 100 \<noteq> 1 \<and> windows ! 100 \<noteq> 1"
    by auto
  moreover
  from scenario_room_and_window_confined[of ?p 20089 "[0, 0, 1, 0]" 4 1 4, THEN conjunct2,
         THEN conjunct1, rule_format, of 3]
  have "door_fill 4 [1..<4] [0, 0, 1, 0] ! 3 = 1" by simp
  ultimately show ?thesis using h1 h2 h3 h4 by (simp add: gen)
qed

section \<open>Aggregation over the persons of an apartment\<close>

lemma broadcast2_same_length:
  "length xs = length ys \<Longrightarrow> broadcast2 f xs ys = Inr (map2 f xs ys)"
  by (simp add: broadcast2_def)

lemma np_logical_or_aligned:
  "length ys = length xs \<Longrightarrow>
   np_logical_or (NumArr xs) (Some ys)
     = Inr (NumArr (map (\<lambda>i. bool_or (xs ! i) (ys ! i)) [0..<length xs]))"
  by (auto simp: np_logical_or_def broadcast2_same_length intro!: nth_equalityI)

lemma aggregate_loop_aligned:
  assumes "\<forall>p\<in>set ps. \<exists>ys. f p = Some ys \<and> length ys = length xs"
  shows "aggregate_loop f ps (NumArr xs)
           = Inr (NumArr (if ps = [] then xs
                          else map (\<lambda>i. if xs ! i \<noteq> 0 \<or> (\<exists>p\<in>set ps. the (f p) ! i \<noteq> 0)
                                          then 1 else 0) [0..<length xs]))"
  using assms
proof (induction ps arbitrary: xs)
  case Nil
  then show ?case by simp
next
  case (Cons p ps)
  from Cons.prems obtain ys where ys: "f p = Some ys" "length ys = length xs" by auto
  let ?zs = "map (\<lambda>i. bool_or (xs ! i) (ys ! i)) [0..<length xs]"
  have step: "np_logical_or (NumArr xs) (f p) = Inr (NumArr ?zs)"
    using ys by (simp add: np_logical_or_aligned)
  have rest: "\<forall>q\<in>set ps. \<exists>ys. f q = Some ys \<and> length ys = length ?zs"
    using Cons.prems by simp
  have "aggregate_loop f (p # ps) (NumArr xs) = aggregate_loop f ps (NumArr ?zs)"
    by (simp add: step)
  also have "\<dots> = Inr (NumArr (if ps = [] then ?zs
       else map (\<lambda>i. if ?zs ! i \<noteq> 0 \<or> (\<exists>q\<in>set ps. the (f q) ! i \<noteq> 0) then 1 else 0)
              [0..<length ?zs]))"
    by (rule Cons.IH[OF rest])
  also have "(if ps = [] then ?zs
       else map (\<lambda>i. if ?zs ! i \<noteq> 0 \<or> (\<exists>q\<in>set ps. the (f q) ! i \<noteq> 0) then 1 else 0)
              [0..<length ?zs])
     = map (\<lambda>i. if xs ! i \<noteq> 0 \<or> (\<exists>q\<in>set (p # ps). the (f q) ! i \<noteq> 0) then 1 else 0)
         [0..<length xs]"
    using ys by (auto simp: bool_or_def intro!: nth_equalityI)
  finally show ?case by simp
qed

lemma aggregate_person_state_aligned:
  assumes "\<forall>a\<in>set (persons apt). f (heap w a) = Some (arr a)
             \<and> length (arr a) = length (timestamps apt)"
  shows "aggregate_person_state apt w f
           = Inr (map (\<lambda>i. if \<exists>a\<in>set (persons apt). arr a ! i \<noteq> 0 then 1 else 0)
                    [0..<length (timestamps apt)])"
proof -
  let ?n = "length (timestamps apt)"
  have "\<forall>p\<in>set (map (heap w) (persons apt)).
          \<exists>ys. f p = Some ys \<and> length ys = length (replicate ?n (0::int))"
    using assms by auto
  from aggregate_loop_aligned[OF this]
  have "aggregate_loop f (map (heap w) (persons apt)) (NumArr (replicate ?n 0))
          = Inr (NumArr (if persons apt = [] then replicate ?n 0
                 else map (\<lambda>i. if replicate ?n (0::int) ! i \<noteq> 0
                                     \<or> (\<exists>p\<in>set (map (heap w) (persons apt)). the (f p) ! i \<noteq> 0)
                                  then 1 else 0) [0..<?n]))"
    by simp
  also have "(if persons apt = [] then replicate ?n 0
                 else map (\<lambda>i. if replicate ?n (0::int) ! i \<noteq> 0
                                     \<or> (\<exists>p\<in>set (map (heap w) (persons apt)). the (f p) ! i \<noteq> 0)
                                  then 1 else 0) [0..<?n])
     = map (\<lambda>i. if \<exists>a\<in>set (persons apt). arr a ! i \<noteq> 0 then 1 else 0) [0..<?n]"
    using assms by (auto intro!: nth_equalityI)
  finally show ?thesis by (simp add: aggregate_person_state_def astype_int_def)
qed

text \<open>
  Claim C6. When every person of the apartment has generated, on arrays of the length of
  the apartment's axis, \<open>get_window()\<close> and \<open>get_door()\<close> return, index by index,
  1 if some person's array is set there and 0 otherwise; the result is the same for any
  other list of the same persons, whatever its order; and an apartment with no person
  gets the all-zero array of the length of the axis.
\<close>

theorem apartment_window_door_is_or_of_persons:
  "((\<forall>a\<in>set (persons apt).
       get_window_state (heap w a) = Some (windows a)
       \<and> length (windows a) = length (timestamps apt)
       \<and> get_door_state (heap w a) = Some (doors a)
       \<and> length (doors a) = length (timestamps apt)) \<longrightarrow>
     get_window apt w
       = Inr (map (\<lambda>i. if \<exists>a\<in>set (persons apt). windows a ! i \<noteq> 0 then 1 else 0)
                [0..<length (timestamps apt)])
     \<and> get_door apt w
       = Inr (map (\<lambda>i. if \<exists>a\<in>set (persons apt). doors a ! i \<noteq> 0 then 1 else 0)
                [0..<length (timestamps apt)])
     \<and> (\<forall>ps. set ps = set (persons apt) \<longrightarrow>
           get_window (apt\<lparr>persons := ps\<rparr>) w = get_window apt w
           \<and> get_door (apt\<lparr>persons := ps\<rparr>) w = get_door apt w))
   \<and> (persons apt = [] \<longrightarrow>
         get_window apt w = Inr (replicate (length (timestamps apt)) 0)
         \<and> get_door apt w = Inr (replicate (length (timestamps apt)) 0))"
proof (intro conjI impI allI)
  assume gen: "\<forall>a\<in>set (persons apt).
       get_window_state (heap w a) = Some (windows a)
       \<and> length (windows a) = length (timestamps apt)
       \<and> get_door_state (heap w a) = Some (doors a)
       \<and> length (doors a) = length (timestamps apt)"
  have gw: "\<forall>a\<in>set (persons apt). get_window_state (heap w a) = Some (windows a)
             \<and> length (windows a) = length (timestamps apt)"
    using gen by simp
  have gd: "\<forall>a\<in>set (persons apt). get_door_state (heap w a) = Some (doors a)
             \<and> length (doors a) = length (timestamps apt)"
    using gen by simp
  show w1: "get_window apt w
       = Inr (map (\<lambda>i. if \<exists>a\<in>set (persons apt). windows a ! i \<noteq> 0 then 1 else 0)
                [0..<length (timestamps apt)])"
    unfolding get_window_def by (rule aggregate_person_state_aligned[OF gw])
  show d1: "get_door apt w
       = Inr (map (\<lambda>i. if \<exists>a\<in>set (persons apt). doors a ! i \<noteq> 0 then 1 else 0)
                [0..<length (timestamps apt)])"
    unfolding get_door_def by (rule aggregate_person_state_aligned[OF gd])
  fix ps
  assume ps: "set ps = set (persons apt)"
  have gw': "\<forall>a\<in>set (persons (apt\<lparr>persons := ps\<rparr>)).
      get_window_state (heap w a) = Some (windows a)
      \<and> length (windows a) = length (timestamps (apt\<lparr>persons := ps\<rparr>))"
    using gw ps by simp
  have gd': "\<forall>a\<in>set (persons (apt\<lparr>persons := ps\<rparr>)).
      get_door_state (heap w a) = Some (doors a)
      \<and> length (doors a) = length (timestamps (apt\<lparr>persons := ps\<rparr>))"
    using gd ps by simp
  show "get_window (apt\<lparr>persons := ps\<rparr>) w = get_window apt w"
    unfolding w1 unfolding get_window_def
    using aggregate_person_state_aligned[OF gw'] ps by simp
  show "get_door (apt\<lparr>persons := ps\<rparr>) w = get_door apt w"
    unfolding d1 unfolding get_door_def
    using aggregate_person_state_aligned[OF gd'] ps by simp
next
  assume "persons apt = []"
  then show "get_window apt w = Inr (replicate (length (timestamps apt)) 0)"
    by (simp add: get_window_def aggregate_person_state_def astype_int_def)
next
  assume "persons apt = []"
  then show "get_door apt w = Inr (replicate (length (timestamps apt)) 0)"
    by (simp add: get_door_def aggregate_person_state_def astype_int_def)
qed

theorem apartment_window_door_is_or_of_persons_witness:
  "(get_window_state (heap shared_home 0) = Some [0, 1, 0, 0]
    \<and> get_window_state (heap shared_home 1) = Some [1, 1, 0, 0]
    \<and> get_door_state (heap shared_home 0) = Some [1, 0, 1, 0]
    \<and> get_door_state (heap shared_home 1) = Some [0, 1, 1, 0]
    \<and> length (timestamps flat) = 4 \<and> persons flat = [0, 1])
   \<and> get_window flat shared_home = Inr [1, 1, 0, 0]
   \<and> get_door flat shared_home = Inr [1, 1, 1, 0]
   \<and> get_window (flat\<lparr>persons := [1, 0]\<rparr>) shared_home = get_window flat shared_home
   \<and> get_door (flat\<lparr>persons := [1, 0]\<rparr>) shared_home = get_door flat shared_home
   \<and> persons (flat\<lparr>persons := []\<rparr>) = []
   \<and> get_window (flat\<lparr>persons := []\<rparr>) shared_home = Inr [0, 0, 0, 0]
   \<and> get_door (flat\<lparr>persons := []\<rparr>) shared_home = Inr [0, 0, 0, 0]"
proof -
  let ?ws = "\<lambda>a::nat. if a = 0 then [0, 1, 0, 0] else [1, 1, 0, 0 :: int]"
  let ?ds = "\<lambda>a::nat. if a = 0 then [1, 0, 1, 0] else [0, 1, 1, 0 :: int]"
  have w0: "get_window_state (heap shared_home 0) = Some [0, 1, 0, 0]" by code_simp
  have w1: "get_window_state (heap shared_home 1) = Some [1, 1, 0, 0]" by code_simp
  have d0: "get_door_state (heap shared_home 0) = Some [1, 0, 1, 0]" by code_simp
  have d1: "get_door_state (heap shared_home 1) = Some [0, 1, 1, 0]" by code_simp
  have n: "length (timestamps flat) = 4" by code_simp
  have ps: "persons flat = [0, 1]" by (simp add: flat_def Apartment_init_def)
  have hyp: "\<forall>a\<in>set (persons flat).
       get_window_state (heap shared_home a) = Some (?ws a)
       \<and> length (?ws a) = length (timestamps flat)
       \<and> get_door_state (heap shared_home a) = Some (?ds a)
       \<and> length (?ds a) = length (timestamps flat)"
    using w0 w1 d0 d1 n ps by simp
  have up: "[0..<4] = [0, 1, 2, 3]" by (simp add: upt_rec)
  note inst = apartment_window_door_is_or_of_persons[of flat shared_home ?ws ?ds]
  from inst hyp have gw: "get_window flat shared_home = Inr [1, 1, 0, 0]"
    by (simp add: n ps up)
  from inst hyp have gd: "get_door flat shared_home = Inr [1, 1, 1, 0]"
    by (simp add: n ps up)
  from inst hyp have perm: "\<forall>ps. set ps = set (persons flat) \<longrightarrow>
           get_window (flat\<lparr>persons := ps\<rparr>) shared_home = get_window flat shared_home
           \<and> get_door (flat\<lparr>persons := ps\<rparr>) shared_home = get_door flat shared_home"
    by blast
  have "set [1, 0] = set (persons flat)" using ps by auto
  with perm have sw: "get_window (flat\<lparr>persons := [1, 0]\<rparr>) shared_home = get_window flat shared_home
     \<and> get_door (flat\<lparr>persons := [1, 0]\<rparr>) shared_home = get_door flat shared_home"
    by blast
  have e: "persons (flat\<lparr>persons := []\<rparr>) = []" by simp
  from apartment_window_door_is_or_of_persons[of "flat\<lparr>persons := []\<rparr>" shared_home ?ws ?ds] e n
  have ew: "get_window (flat\<lparr>persons := []\<rparr>) shared_home = Inr [0, 0, 0, 0]
     \<and> get_door (flat\<lparr>persons := []\<rparr>) shared_home = Inr [0, 0, 0, 0]"
    by (simp add: numeral_eq_Suc)
  from w0 w1 d0 d1 n ps gw gd sw e ew show ?thesis by blast
qed

text \<open>
  Claim C8 says that \<open>get_window()\<close> and \<open>get_door()\<close> return an absent or empty
  result, and never raise, when some person has not generated. They hold no test for
  it. With the person who has not generated first and one who has second, the result is
  the second person's array; with that person alone, \<open>astype(int)\<close> meets
  \<open>None\<close> and raises.
\<close>

theorem apartment_window_with_ungenerated_person:
  "get_window_state (heap shared_home 2) = None
   \<and> get_window (flat\<lparr>persons := [2, 0]\<rparr>) shared_home = Inr [0, 1, 0, 0]
   \<and> get_window (flat\<lparr>persons := [2]\<rparr>) shared_home
       = Inl (TypeError ''int() argument must be a number, not NoneType'')"
  by code_simp

text \<open>
  Claim C8, amended. The accessors of a person return \<open>None\<close> after construction
  and after \<open>set_timeline\<close>, that is before \<open>generate()\<close>, and
  \<open>get_motion()\<close> returns \<open>None\<close> on an apartment as constructed. They are reads
  of a field: there is nothing in them that could raise.
\<close>

theorem accessors_absent_before_generation:
  "get_room1_state (Person_init bitgen entropy nm ohwd ohwe sh wpd wd dpd dd rpd rd sd) = None
   \<and> get_window_state (Person_init bitgen entropy nm ohwd ohwe sh wpd wd dpd dd rpd rd sd) = None
   \<and> get_door_state (Person_init bitgen entropy nm ohwd ohwe sh wpd wd dpd dd rpd rd sd) = None
   \<and> get_room1_state (set_timeline p ts) = None
   \<and> get_window_state (set_timeline p ts) = None
   \<and> get_door_state (set_timeline p ts) = None
   \<and> get_motion (fst (Apartment_init bitgen' ts' ps prob lo hi sd' w)) = None"
  by (simp add: get_room1_state_def get_window_state_def get_door_state_def Person_init_def
      set_timeline_def get_motion_def Apartment_init_def)

section \<open>Determinism and independence of persons\<close>

lemma exec_frame:
  "target c \<noteq> Some a \<Longrightarrow> heap (exec bg c w) a = heap w a"
  by (cases c) (auto simp: np_random_seed_def)

lemma run_frame:
  "Some a \<notin> target ` set calls \<Longrightarrow> heap (run bg calls w) a = heap w a"
  unfolding run_def
proof (induction calls arbitrary: w)
  case Nil
  then show ?case by simp
next
  case (Cons c calls)
  then have "target c \<noteq> Some a" and rest: "Some a \<notin> target ` set calls" by auto
  have "heap (fold (exec bg) calls (exec bg c w)) a = heap (exec bg c w) a"
    by (rule Cons.IH[OF rest])
  also have "\<dots> = heap w a" using \<open>target c \<noteq> Some a\<close> by (rule exec_frame)
  finally show ?case by simp
qed

lemma run_append: "run bg (xs @ ys) w = run bg ys (run bg xs w)"
  by (simp add: run_def)

text \<open>The result of a first \<open>generate()\<close> in terms of the results of its three samplers.\<close>

lemma Person_generate_result:
  assumes "timeline_cache p = None" and "person.timestamps p = Some ts"
  shows "fst (Person_generate p) =
     (case fst (generate_room1 p (extract_time_features ts)
                  (generate_inside p (extract_time_features ts))
                  (generate_sleeping p (extract_time_features ts)) (rng p)) of
        Inl e \<Rightarrow> Inl e
      | Inr room1 \<Rightarrow>
          (case fst (generate_window_state p (length ts) (extract_time_features ts)
                       (generate_inside p (extract_time_features ts))
                       (generate_sleeping p (extract_time_features ts))
                       (snd (generate_room1 p (extract_time_features ts)
                               (generate_inside p (extract_time_features ts))
                               (generate_sleeping p (extract_time_features ts)) (rng p)))) of
             Inl e \<Rightarrow> Inl e
           | Inr windows \<Rightarrow>
               (case fst (generate_door_state p (length ts) (extract_time_features ts)
                            (generate_inside p (extract_time_features ts))
                            (generate_sleeping p (extract_time_features ts))
                            (snd (generate_window_state p (length ts) (extract_time_features ts)
                               (generate_inside p (extract_time_features ts))
                               (generate_sleeping p (extract_time_features ts))
                               (snd (generate_room1 p (extract_time_features ts)
                                  (generate_inside p (extract_time_features ts))
                                  (generate_sleeping p (extract_time_features ts)) (rng p)))))) of
                  Inl e \<Rightarrow> Inl e
                | Inr doors \<Rightarrow>
                    Inr (generate_inside p (extract_time_features ts),
                         generate_sleeping p (extract_time_features ts),
                         room1, windows, doors))))"
  using assms
  by (simp add: Person_generate_def Let_def split: sum.splits prod.splits)

lemma same_configuration_same_result:
  assumes "timeline_cache p = None" and "timeline_cache q = None"
    and "person.timestamps p = Some ts" and "person.timestamps q = Some ts"
    and "rng p = rng q"
    and "outside_hours_weekdays p = outside_hours_weekdays q"
    and "outside_hours_weekend p = outside_hours_weekend q"
    and "sleep_hours p = sleep_hours q"
    and "window_open_per_day p = window_open_per_day q"
    and "window_open_duration p = window_open_duration q"
    and "door_open_per_day p = door_open_per_day q"
    and "door_open_duration p = door_open_duration q"
    and "room_per_day p = room_per_day q"
    and "room_duration p = room_duration q"
  shows "fst (Person_generate p) = fst (Person_generate q)"
proof -
  have "is_outside p = is_outside q"
    by (simp add: is_outside_def fun_eq_iff assms(6,7))
  then have i: "generate_inside p = generate_inside q"
    by (simp add: generate_inside_def fun_eq_iff)
  have s: "generate_sleeping p = generate_sleeping q"
    by (simp add: generate_sleeping_def fun_eq_iff assms(8))
  have r: "generate_room1 p = generate_room1 q"
    by (simp add: generate_room1_def fun_eq_iff Let_def assms(13,14))
  have w: "generate_window_state p = generate_window_state q"
    by (simp add: generate_window_state_def fun_eq_iff assms(9,10))
  have d: "generate_door_state p = generate_door_state q"
    by (simp add: generate_door_state_def fun_eq_iff assms(11,12))
  show ?thesis
    by (simp only: Person_generate_result[OF assms(1,3)] Person_generate_result[OF assms(2,4)]
        i s r w d assms(5))
qed

text \<open>
  Claim C5. Two person objects constructed with the same configuration and the same seed
  and bound to the same axis return equal arrays from \<open>generate()\<close>, whatever calls
  are made on other persons and on the global generator before the first is generated
  and between the two; and what they return is what one of them returns when generated
  alone.
\<close>

theorem generate_depends_on_own_stream_only:
  "a \<noteq> b \<longrightarrow> Some a \<notin> target ` set before \<longrightarrow> Some b \<notin> target ` set before \<longrightarrow>
   Some b \<notin> target ` set between \<longrightarrow>
   heap w a = set_timeline
                (Person_init bitgen e1 nm1 ohwd ohwe sh wpd wd dpd dd rpd rd (Some s)) ts \<longrightarrow>
   heap w b = set_timeline
                (Person_init bitgen e2 nm2 ohwd ohwe sh wpd wd dpd dd rpd rd (Some s)) ts \<longrightarrow>
     fst (Person_generate (heap (run bg before w) a))
       = fst (Person_generate (heap (run bg (before @ Generate a # between) w) b))
     \<and> fst (Person_generate (heap (run bg before w) a))
       = fst (Person_generate
           (set_timeline
              (Person_init bitgen e1 nm1 ohwd ohwe sh wpd wd dpd dd rpd rd (Some s)) ts))"
proof (intro impI)
  assume ab: "a \<noteq> b" and a1: "Some a \<notin> target ` set before"
    and b1: "Some b \<notin> target ` set before" and b2: "Some b \<notin> target ` set between"
    and ha: "heap w a = set_timeline
                (Person_init bitgen e1 nm1 ohwd ohwe sh wpd wd dpd dd rpd rd (Some s)) ts"
    and hb: "heap w b = set_timeline
                (Person_init bitgen e2 nm2 ohwd ohwe sh wpd wd dpd dd rpd rd (Some s)) ts"
  have fa: "heap (run bg before w) a = heap w a" using a1 by (rule run_frame)
  have "Some b \<notin> target ` set (before @ Generate a # between)"
    using ab b1 b2 by auto
  then have fb: "heap (run bg (before @ Generate a # between) w) b = heap w b"
    by (rule run_frame)
  have same: "fst (Person_generate (heap w a)) = fst (Person_generate (heap w b))"
    unfolding ha hb
    by (rule same_configuration_same_result)
       (simp_all add: set_timeline_def Person_init_def default_rng_def)
  show "fst (Person_generate (heap (run bg before w) a))
       = fst (Person_generate (heap (run bg (before @ Generate a # between) w) b))
     \<and> fst (Person_generate (heap (run bg before w) a))
       = fst (Person_generate
           (set_timeline
              (Person_init bitgen e1 nm1 ohwd ohwe sh wpd wd dpd dd rpd rd (Some s)) ts))"
    using fa fb same ha by simp
qed

theorem generate_depends_on_own_stream_only_witness:
  "(0::nat) \<noteq> 1
   \<and> Some (0::nat) \<notin> target ` set [SetTimeline 2 morning_axis, Generate 2, SeedGlobal 5]
   \<and> Some (1::nat) \<notin> target ` set [SetTimeline 2 morning_axis, Generate 2, SeedGlobal 5]
   \<and> Some (1::nat) \<notin> target ` set [Generate 2, SetTimeline 2 five_minutes, Generate 2]
   \<and> heap fresh_home 0 = set_timeline alice morning_axis
   \<and> heap fresh_home 1 = set_timeline alix morning_axis
   \<and> fst (Person_generate
        (heap (run counting_bitgen [SetTimeline 2 morning_axis, Generate 2, SeedGlobal 5]
                 fresh_home) 0))
      = Inr ([1, 1, 0, 0], [0, 0, 0, 0], [1, 1, 0, 0], [0, 1, 0, 0], [1, 0, 1, 0])
   \<and> fst (Person_generate
        (heap (run counting_bitgen
                 ([SetTimeline 2 morning_axis, Generate 2, SeedGlobal 5]
                  @ Generate 0 # [Generate 2, SetTimeline 2 five_minutes, Generate 2])
                 fresh_home) 1))
      = Inr ([1, 1, 0, 0], [0, 0, 0, 0], [1, 1, 0, 0], [0, 1, 0, 0], [1, 0, 1, 0])"
proof -
  have h1: "Some (0::nat) \<notin> target ` set [SetTimeline 2 morning_axis, Generate 2, SeedGlobal 5]"
    by simp
  have h2: "Some (1::nat) \<notin> target ` set [SetTimeline 2 morning_axis, Generate 2, SeedGlobal 5]"
    by simp
  have h3: "Some (1::nat) \<notin> target ` set [Generate 2, SetTimeline 2 five_minutes, Generate 2]"
    by simp
  have h4: "heap fresh_home 0 = set_timeline
     (Person_init counting_bitgen 0 ''Alice'' [(9, 17)] [] (23, 7)
             (1, 1) (1, 2) (1, 1) (1, 3) (1, 1) (1, 2) (Some 7)) morning_axis"
    by (simp add: fresh_home_def alice_def)
  have h5: "heap fresh_home 1 = set_timeline
     (Person_init counting_bitgen 3 ''Alix'' [(9, 17)] [] (23, 7)
             (1, 1) (1, 2) (1, 1) (1, 3) (1, 1) (1, 2) (Some 7)) morning_axis"
    by (simp add: fresh_home_def alix_def)
  have iso: "fst (Person_generate (set_timeline alice morning_axis))
      = Inr ([1, 1, 0, 0], [0, 0, 0, 0], [1, 1, 0, 0], [0, 1, 0, 0], [1, 0, 1, 0])"
    by code_simp
  have ne: "(0::nat) \<noteq> 1" by simp
  note inst = generate_depends_on_own_stream_only[of 0 1 "[SetTimeline 2 morning_axis, Generate 2, SeedGlobal 5]"
             "[Generate 2, SetTimeline 2 five_minutes, Generate 2]" fresh_home
             counting_bitgen 0 "''Alice''" "[(9, 17)]" "[]" "(23, 7)" "(1, 1)" "(1, 2)" "(1, 1)"
             "(1, 3)" "(1, 1)" "(1, 2)" 7 morning_axis 3 "''Alix''" counting_bitgen,
             rule_format, OF ne h1 h2 h3 h4 h5]
  from inst have e1: "fst (Person_generate
        (heap (run counting_bitgen [SetTimeline 2 morning_axis, Generate 2, SeedGlobal 5]
                 fresh_home) 0))
      = fst (Person_generate
        (heap (run counting_bitgen
                 ([SetTimeline 2 morning_axis, Generate 2, SeedGlobal 5]
                  @ Generate 0 # [Generate 2, SetTimeline 2 five_minutes, Generate 2])
                 fresh_home) 1))"
    by (rule conjunct1)
  from inst have e2: "fst (Person_generate
        (heap (run counting_bitgen [SetTimeline 2 morning_axis, Generate 2, SeedGlobal 5]
                 fresh_home) 0))
      = fst (Person_generate (set_timeline alice morning_axis))"
    unfolding alice_def by (rule conjunct2)
  have r: "fst (Person_generate
        (heap (run counting_bitgen [SetTimeline 2 morning_axis, Generate 2, SeedGlobal 5]
                 fresh_home) 0))
      = Inr ([1, 1, 0, 0], [0, 0, 0, 0], [1, 1, 0, 0], [0, 1, 0, 0], [1, 0, 1, 0])
   \<and> fst (Person_generate
        (heap (run counting_bitgen
                 ([SetTimeline 2 morning_axis, Generate 2, SeedGlobal 5]
                  @ Generate 0 # [Generate 2, SetTimeline 2 five_minutes, Generate 2])
                 fresh_home) 1))
      = Inr ([1, 1, 0, 0], [0, 0, 0, 0], [1, 1, 0, 0], [0, 1, 0, 0], [1, 0, 1, 0])"
    using e1 e2 iso by (simp only:)
  have h4': "heap fresh_home 0 = set_timeline alice morning_axis" by (simp add: fresh_home_def)
  have h5': "heap fresh_home 1 = set_timeline alix morning_axis" by (simp add: fresh_home_def)
  from ne h1 h2 h3 h4' h5' r show ?thesis by blast
qed

section \<open>The motion pass\<close>

lemma motion_loop_done:
  "\<not> i < int n \<Longrightarrow>
   motion_loop prob lo hi n room1_state i person_motion bursts g
     = Some (Inr (person_motion, bursts), g)"
  by (subst motion_loop.simps) simp

lemma motion_loop_absent:
  "i < int n \<Longrightarrow>
   motion_loop prob lo hi n None i person_motion bursts g
     = Some (Inl (TypeError ''NoneType object is not subscriptable''), g)"
  by (subst motion_loop.simps) simp

lemma motion_loop_index_error:
  "i < int n \<Longrightarrow> py_getitem r1 i = Inl e \<Longrightarrow>
   motion_loop prob lo hi n (Some r1) i person_motion bursts g = Some (Inl e, g)"
  by (subst motion_loop.simps) simp

lemma motion_loop_unoccupied:
  "i < int n \<Longrightarrow> py_getitem r1 i = Inr v \<Longrightarrow> \<not> 0 < v \<Longrightarrow>
   motion_loop prob lo hi n (Some r1) i person_motion bursts g
     = motion_loop prob lo hi n (Some r1) (i + 1) person_motion bursts g"
  by (subst motion_loop.simps) simp

lemma motion_loop_still:
  "i < int n \<Longrightarrow> py_getitem r1 i = Inr v \<Longrightarrow> 0 < v \<Longrightarrow> np_random_rand g = (u, g1) \<Longrightarrow>
   \<not> u < prob \<Longrightarrow>
   motion_loop prob lo hi n (Some r1) i person_motion bursts g
     = motion_loop prob lo hi n (Some r1) (i + 1) person_motion bursts g1"
  by (subst motion_loop.simps) simp

lemma motion_loop_range_error:
  "i < int n \<Longrightarrow> py_getitem r1 i = Inr v \<Longrightarrow> 0 < v \<Longrightarrow> np_random_rand g = (u, g1) \<Longrightarrow>
   u < prob \<Longrightarrow> rng_integers lo (hi + 1) g1 = (Inl e, g2) \<Longrightarrow>
   motion_loop prob lo hi n (Some r1) i person_motion bursts g = Some (Inl e, g2)"
  by (subst motion_loop.simps) simp

lemma motion_loop_burst:
  "i < int n \<Longrightarrow> py_getitem r1 i = Inr v \<Longrightarrow> 0 < v \<Longrightarrow> np_random_rand g = (u, g1) \<Longrightarrow>
   u < prob \<Longrightarrow> rng_integers lo (hi + 1) g1 = (Inr duration, g2) \<Longrightarrow>
   motion_loop prob lo hi n (Some r1) i person_motion bursts g
     = motion_loop prob lo hi n (Some r1) (min (i + duration) (int n))
         (slice_assign person_motion i (min (i + duration) (int n)) 1)
         (bursts @ [(i, min (i + duration) (int n))]) g2"
  by (subst motion_loop.simps) simp

text \<open>With durations of at least one index the cursor moves on at every turn.\<close>

lemma motion_loop_terminates:
  assumes "1 \<le> lo"
  shows "\<exists>r. motion_loop prob lo hi n room1_state i person_motion bursts g = Some r"
proof (induction "nat (int n - i)" arbitrary: i person_motion bursts g rule: less_induct)
  case less
  show ?case
  proof (cases "i < int n")
    case False
    then show ?thesis by (simp add: motion_loop_done)
  next
    case lt: True
    have next_ok: "\<exists>r. motion_loop prob lo hi n room1_state j pm bs h = Some r"
      if "i < j" for j pm bs h
      using less[of j pm bs h] that lt by simp
    show ?thesis
    proof (cases room1_state)
      case None
      with lt show ?thesis by (simp add: motion_loop_absent)
    next
      case (Some r1)
      show ?thesis
      proof (cases "py_getitem r1 i")
        case (Inl e)
        with lt Some show ?thesis by (simp add: motion_loop_index_error)
      next
        case (Inr v)
        show ?thesis
        proof (cases "0 < v")
          case False
          with lt Some Inr next_ok[of "i + 1"] show ?thesis
            by (simp add: motion_loop_unoccupied)
        next
          case pos: True
          obtain u g1 where rand: "np_random_rand g = (u, g1)" by (cases "np_random_rand g")
          show ?thesis
          proof (cases "u < prob")
            case False
            with lt Some Inr pos rand next_ok[of "i + 1"] show ?thesis
              by (simp add: motion_loop_still)
          next
            case move: True
            obtain r g2 where int: "rng_integers lo (hi + 1) g1 = (r, g2)"
              by (cases "rng_integers lo (hi + 1) g1")
            show ?thesis
            proof (cases r)
              case (Inl e)
              with lt Some Inr pos rand move int show ?thesis
                by (simp add: motion_loop_range_error)
            next
              case (Inr duration)
              with int rng_integers_range have "lo \<le> duration" by blast
              with assms lt have "i < min (i + duration) (int n)" by simp
              from next_ok[OF this] lt Some \<open>py_getitem r1 i = Inr v\<close> pos rand move int Inr
              show ?thesis by (simp add: motion_loop_burst)
            qed
          qed
        qed
      qed
    qed
  qed
qed

lemma simulate_person_motion_absent:
  assumes "0 < length (timestamps apt)" and "get_room1_state person = None"
  shows "simulate_person_motion apt person g
           = Some (Inl (TypeError ''NoneType object is not subscriptable''), g)"
  using assms by (simp add: simulate_person_motion_def motion_loop_absent)

lemma simulate_person_motion_terminates:
  "1 \<le> min_duration apt \<Longrightarrow> \<exists>r. simulate_person_motion apt person g = Some r"
  unfolding simulate_person_motion_def by (rule motion_loop_terminates)

lemma motion_over_persons_absent:
  assumes "0 < length (timestamps apt)"
    and "person \<in> set ps" and "get_room1_state person = None"
  shows "motion_over_persons apt ps motion g \<noteq> Some (Inr motion', g')"
  using assms(2)
proof (induction ps arbitrary: motion g)
  case Nil
  then show ?case by simp
next
  case (Cons p ps)
  show ?case
  proof (cases "get_room1_state p = None")
    case True
    with assms(1) show ?thesis by (simp add: simulate_person_motion_absent)
  next
    case False
    with Cons.prems assms(3) have "person \<in> set ps" by auto
    then have ih: "\<And>m h. motion_over_persons apt ps m h \<noteq> Some (Inr motion', g')"
      by (rule Cons.IH)
    show ?thesis
      using ih
      by (auto split: option.splits sum.splits prod.splits)
  qed
qed

lemma motion_over_persons_terminates:
  assumes "1 \<le> min_duration apt"
  shows "\<exists>r. motion_over_persons apt ps motion g = Some r"
proof (induction ps arbitrary: motion g)
  case Nil
  then show ?case by simp
next
  case (Cons p ps)
  from simulate_person_motion_terminates[OF assms] obtain r where
    r: "simulate_person_motion apt p g = Some r" by blast
  show ?case
    using Cons.IH r by (auto split: option.splits sum.splits prod.splits)
qed

text \<open>
  Claim C10. On a non-empty axis, the motion pass of a person whose room1 accessor
  returns \<open>None\<close> raises at index 0, before any draw, instead of giving that person
  no motion; so \<open>Apartment.generate()\<close> never completes when such a person is among
  the apartment's, and with durations of at least one index (when every pass ends) it
  raises and leaves the motion state as it was.
\<close>

theorem motion_fails_on_ungenerated_person:
  "0 < length (timestamps apt) \<longrightarrow> a \<in> set (persons apt) \<longrightarrow>
   get_room1_state (heap w a) = None \<longrightarrow>
     simulate_person_motion apt (heap w a) g
       = Some (Inl (TypeError ''NoneType object is not subscriptable''), g)
     \<and> (\<forall>motion g'. generate_motion apt w \<noteq> Some (Inr motion, g'))
     \<and> (\<forall>apt' w'. Apartment_generate apt w \<noteq> Some (Inr (), apt', w'))
     \<and> (1 \<le> min_duration apt \<longrightarrow>
          (\<exists>e apt' w'. Apartment_generate apt w = Some (Inl e, apt', w')
                        \<and> motion_state apt' = motion_state apt))"
proof (intro impI)
  assume n: "0 < length (timestamps apt)" and a: "a \<in> set (persons apt)"
    and absent: "get_room1_state (heap w a) = None"
  have one: "simulate_person_motion apt (heap w a) g
       = Some (Inl (TypeError ''NoneType object is not subscriptable''), g)"
    using n absent by (rule simulate_person_motion_absent)
  have mem: "heap w a \<in> set (map (heap w) (persons apt))" using a by simp
  have never: "generate_motion apt w \<noteq> Some (Inr motion, g')" for motion g'
    unfolding generate_motion_def
    using n mem absent by (rule motion_over_persons_absent)
  have never': "Apartment_generate apt w \<noteq> Some (Inr (), apt', w')" for apt' w'
    using never
    by (auto simp: Apartment_generate_def split: option.splits sum.splits prod.splits)
  have fails: "\<exists>e apt' w'. Apartment_generate apt w = Some (Inl e, apt', w')
                        \<and> motion_state apt' = motion_state apt"
    if lo: "1 \<le> min_duration apt"
  proof -
    from motion_over_persons_terminates[OF lo] obtain r where
      r: "generate_motion apt w = Some r" unfolding generate_motion_def by blast
    obtain x h where xh: "r = (x, h)" by (cases r)
    show ?thesis
    proof (cases x)
      case (Inl e)
      with r xh show ?thesis by (simp add: Apartment_generate_def)
    next
      case (Inr motion)
      with r xh never show ?thesis by simp
    qed
  qed
  from one never never' fails
  show "simulate_person_motion apt (heap w a) g
       = Some (Inl (TypeError ''NoneType object is not subscriptable''), g)
     \<and> (\<forall>motion g'. generate_motion apt w \<noteq> Some (Inr motion, g'))
     \<and> (\<forall>apt' w'. Apartment_generate apt w \<noteq> Some (Inr (), apt', w'))
     \<and> (1 \<le> min_duration apt \<longrightarrow>
          (\<exists>e apt' w'. Apartment_generate apt w = Some (Inl e, apt', w')
                        \<and> motion_state apt' = motion_state apt))"
    by blast
qed

theorem motion_fails_on_ungenerated_person_witness:
  "0 < length (timestamps (flat\<lparr>persons := [0, 2]\<rparr>))
   \<and> 2 \<in> set (persons (flat\<lparr>persons := [0, 2]\<rparr>))
   \<and> get_room1_state (heap shared_home 2) = None
   \<and> 1 \<le> min_duration (flat\<lparr>persons := [0, 2]\<rparr>)
   \<and> simulate_person_motion (flat\<lparr>persons := [0, 2]\<rparr>) (heap shared_home 2) (np_random shared_home)
       = Some (Inl (TypeError ''NoneType object is not subscriptable''), np_random shared_home)
   \<and> map_option fst (generate_motion (flat\<lparr>persons := [0, 2]\<rparr>) shared_home)
       = Some (Inl (TypeError ''NoneType object is not subscriptable''))
   \<and> map_option fst (Apartment_generate (flat\<lparr>persons := [0, 2]\<rparr>) shared_home)
       \<noteq> Some (Inr ())"
proof -
  let ?apt = "flat\<lparr>persons := [0, 2]\<rparr>"
  have h1: "0 < length (timestamps ?apt)" by code_simp
  have h2: "2 \<in> set (persons ?apt)" by simp
  have h3: "get_room1_state (heap shared_home 2) = None" by code_simp
  have h4: "1 \<le> min_duration ?apt" by code_simp
  have ev: "map_option fst (generate_motion ?apt shared_home)
       = Some (Inl (TypeError ''NoneType object is not subscriptable''))"
    by code_simp
  note inst = motion_fails_on_ungenerated_person[of ?apt 2 shared_home "np_random shared_home", rule_format, OF h1 h2 h3]
  from inst have s: "simulate_person_motion ?apt (heap shared_home 2) (np_random shared_home)
       = Some (Inl (TypeError ''NoneType object is not subscriptable''), np_random shared_home)"
    by blast
  from inst have "\<forall>apt' w'. Apartment_generate ?apt shared_home \<noteq> Some (Inr (), apt', w')"
    by blast
  then have ag: "map_option fst (Apartment_generate ?apt shared_home) \<noteq> Some (Inr ())"
    by (cases "Apartment_generate ?apt shared_home") auto
  from h1 h2 h3 h4 s ev ag show ?thesis by blast
qed
section \<open>Bursts of a motion pass\<close>

lemma slice_assign_length [simp]: "length (slice_assign xs lo hi v) = length xs"
  by (simp add: slice_assign_def)

lemma slice_assign_nth:
  assumes "0 \<le> lo" and "lo \<le> hi" and "hi \<le> int (length xs)" and "k < length xs"
  shows "slice_assign xs lo hi v ! k = (if lo \<le> int k \<and> int k < hi then v else xs ! k)"
proof -
  have a: "py_slice_index (length xs) lo = nat lo"
    using assms by (simp add: py_slice_index_def min_def)
  have b: "py_slice_index (length xs) hi = nat hi"
    using assms by (simp add: py_slice_index_def min_def)
  have "(nat lo \<le> k \<and> k < nat hi) \<longleftrightarrow> (lo \<le> int k \<and> int k < hi)"
    using assms by auto
  then show ?thesis using assms(4) by (simp add: slice_assign_def a b)
qed

lemma py_getitem_nonneg:
  "0 \<le> i \<Longrightarrow> py_getitem xs i = Inr v \<Longrightarrow> nat i < length xs \<and> v = xs ! nat i"
  by (auto simp: py_getitem_def split: if_splits)

lemma pass_inv_init: "pass_inv hi n room1 0 (replicate n 0) []"
  by (simp add: pass_inv_def bursts_ok_def marks_bursts_def)

lemma pass_inv_skip:
  "pass_inv hi n room1 i person_motion bursts \<Longrightarrow> i < int n
   \<Longrightarrow> pass_inv hi n room1 (i + 1) person_motion bursts"
  by (auto simp: pass_inv_def)

lemma pass_inv_burst:
  assumes inv: "pass_inv hi n room1 i person_motion bursts"
    and lt: "i < int n" and get: "py_getitem room1 i = Inr v" and v: "0 < v"
    and d0: "0 \<le> duration" and d1: "duration \<le> hi"
  shows "pass_inv hi n room1 (min (i + duration) (int n))
           (slice_assign person_motion i (min (i + duration) (int n)) 1)
           (bursts @ [(i, min (i + duration) (int n))])"
proof -
  let ?e = "min (i + duration) (int n)"
  from inv have i0: "0 \<le> i" and ok: "bursts_ok hi n room1 bursts"
    and marks: "marks_bursts n person_motion bursts" and ends: "\<forall>b\<in>set bursts. snd b \<le> i"
    by (simp_all add: pass_inv_def)
  have ie: "i \<le> ?e" and en: "?e \<le> int n" and len: "?e - i \<le> hi"
    using lt d0 d1 by auto
  from py_getitem_nonneg[OF i0 get] v have r: "nat i < length room1" "room1 ! nat i \<noteq> 0"
    by auto
  have ok': "bursts_ok hi n room1 (bursts @ [(i, ?e)])"
    using ok ends i0 ie en len r
    by (auto simp: bursts_ok_def sorted_wrt_append)
  have lpm: "length person_motion = n" using marks by (simp add: marks_bursts_def)
  have marks': "marks_bursts n (slice_assign person_motion i ?e 1) (bursts @ [(i, ?e)])"
    unfolding marks_bursts_def
  proof (intro conjI allI impI)
    show "length (slice_assign person_motion i ?e 1) = n" using lpm by simp
  next
    fix k assume k: "k < n"
    have "slice_assign person_motion i ?e 1 ! k
            = (if i \<le> int k \<and> int k < ?e then 1 else person_motion ! k)"
      using i0 ie en k lpm by (intro slice_assign_nth) simp_all
    also have "person_motion ! k
            = (if \<exists>(s, e)\<in>set bursts. s \<le> int k \<and> int k < e then 1 else 0)"
      using marks k by (simp add: marks_bursts_def)
    finally show "slice_assign person_motion i ?e 1 ! k
            = (if \<exists>(s, e)\<in>set (bursts @ [(i, ?e)]). s \<le> int k \<and> int k < e then 1 else 0)"
      by auto
  qed
  have ends': "\<forall>b\<in>set (bursts @ [(i, ?e)]). snd b \<le> ?e"
    using ends ie by auto
  show ?thesis
    unfolding pass_inv_def using i0 ie en ok' marks' ends' by auto
qed

text \<open>
  The cursor loop keeps the invariant as long as no duration is negative: by induction
  on the computation of a pass that returns.
\<close>

lemma motion_loop_keeps_pass_inv:
  assumes run: "motion_loop prob lo hi n (Some room1) i person_motion bursts g
                  = Some (Inr (person_motion', bursts'), g')"
    and lo: "0 \<le> lo" and inv: "pass_inv hi n room1 i person_motion bursts"
  shows "pass_inv hi n room1 (int n) person_motion' bursts'"
proof -
  have "\<forall>room1 person_motion' bursts' g'.
      room1_state = Some room1 \<longrightarrow> y = (Inr (person_motion', bursts'), g') \<longrightarrow> 0 \<le> lo \<longrightarrow>
      pass_inv hi n room1 i person_motion bursts \<longrightarrow>
      pass_inv hi n room1 (int n) person_motion' bursts'"
    if "motion_loop prob lo hi n room1_state i person_motion bursts g = Some y"
    for room1_state y
    using that
  proof (rule motion_loop.raw_induct[where P = "\<lambda>prob lo hi n rs i pm bs g y.
      \<forall>room1 pm' bs' g'. rs = Some room1 \<longrightarrow> y = (Inr (pm', bs'), g') \<longrightarrow> 0 \<le> lo \<longrightarrow>
        pass_inv hi n room1 i pm bs \<longrightarrow> pass_inv hi n room1 (int n) pm' bs'", rotated],
      goal_cases)
    case (1 loop prob lo hi n room1_state i person_motion bursts g y)
    show ?case
    proof (intro allI impI)
      fix room1 person_motion' bursts' g'
      assume rs: "room1_state = Some room1" and y: "y = (Inr (person_motion', bursts'), g')"
        and lo: "0 \<le> lo" and inv: "pass_inv hi n room1 i person_motion bursts"
      note ih = 1(1)[rule_format, OF _ rs _ lo]
      show "pass_inv hi n room1 (int n) person_motion' bursts'"
      proof (cases "i < int n")
        case False
        with 1(2) y have "person_motion' = person_motion" "bursts' = bursts" by simp_all
        moreover from inv False have "i = int n" by (simp add: pass_inv_def)
        ultimately show ?thesis using inv by simp
      next
        case lt: True
        show ?thesis
        proof (cases "py_getitem room1 i")
          case (Inl e)
          with 1(2) lt rs y show ?thesis by simp
        next
          case (Inr v)
          show ?thesis
          proof (cases "0 < v")
            case False
            with 1(2) lt rs Inr have
              "loop prob lo hi n room1_state (i + 1) person_motion bursts g = Some y" by simp
            from ih[OF this y pass_inv_skip[OF inv lt]] show ?thesis .
          next
            case pos: True
            obtain u g1 where rand: "np_random_rand g = (u, g1)" by (cases "np_random_rand g")
            show ?thesis
            proof (cases "u < prob")
              case False
              with 1(2) lt rs Inr pos rand have
                "loop prob lo hi n room1_state (i + 1) person_motion bursts g1 = Some y" by simp
              from ih[OF this y pass_inv_skip[OF inv lt]] show ?thesis .
            next
              case move: True
              obtain r g2 where int: "rng_integers lo (hi + 1) g1 = (r, g2)"
                by (cases "rng_integers lo (hi + 1) g1")
              show ?thesis
              proof (cases r)
                case (Inl e)
                with 1(2) lt rs \<open>py_getitem room1 i = Inr v\<close> pos rand move int y
                show ?thesis by simp
              next
                case (Inr duration)
                with int rng_integers_range have d: "lo \<le> duration" "duration < hi + 1"
                  by blast+
                from 1(2) lt rs \<open>py_getitem room1 i = Inr v\<close> pos rand move int Inr have
                  step: "loop prob lo hi n room1_state (min (i + duration) (int n))
                     (slice_assign person_motion i (min (i + duration) (int n)) 1)
                     (bursts @ [(i, min (i + duration) (int n))]) g2 = Some y"
                  by simp
                have d0: "0 \<le> duration" and d1: "duration \<le> hi" using d lo by simp_all
                from ih[OF step y pass_inv_burst[OF inv lt \<open>py_getitem room1 i = Inr v\<close> pos d0 d1]]
                show ?thesis .
              qed
            qed
          qed
        qed
      qed
    qed
  qed
  from this[OF run, rule_format, OF refl refl lo inv] show ?thesis .
qed


text \<open>
  Claim C7 says that no two bursts of a pass overlap, the cursor moving past each marked
  span. Nothing keeps \<open>min_duration\<close> from being negative, and a negative duration
  moves the cursor back: with durations from \<open>-3\<close> to \<open>4\<close> on an axis of five
  minutes, a pass marks the span from 0 to 4, steps back from 4 to 1, and marks the span
  from 1 to 5, which overlaps the first.
\<close>

theorem motion_bursts_overlap_with_negative_duration:
  "min_duration jumpy = - 3 \<and> max_duration jumpy = 4
   \<and> get_room1_state (heap jumpy_home 0) = Some [1, 1, 1, 1, 1]
   \<and> map_option fst
        (simulate_person_motion jumpy (heap jumpy_home 0) (np_random jumpy_home))
       = Some (Inr ([1, 1, 1, 1, 1], [(0, 4), (4, 1), (1, 5)]))"
  by code_simp

text \<open>
  Claim C7, amended. With \<open>min_duration\<close> at least 0, in every pass that returns,
  over a person that has generated: each burst is a span from \<open>s\<close> to \<open>e\<close> within
  the axis, of at most \<open>max_duration\<close> indices, that starts at an index where room1
  is nonzero; each burst ends before the next starts; and the person's motion is 1
  exactly on the bursts. With \<open>min_duration\<close> at least 1 every pass returns.
\<close>

theorem motion_bursts_bounded_and_disjoint:
  "(0 \<le> min_duration apt \<longrightarrow> get_room1_state person = Some room1 \<longrightarrow>
    map_option fst (simulate_person_motion apt person g) = Some (Inr (person_motion, bursts)) \<longrightarrow>
      (\<forall>(s, e)\<in>set bursts.
         0 \<le> s \<and> s \<le> e \<and> e \<le> int (length (timestamps apt)) \<and> e - s \<le> max_duration apt
         \<and> nat s < length room1 \<and> room1 ! nat s \<noteq> 0)
      \<and> sorted_wrt (\<lambda>b b'. snd b \<le> fst b') bursts
      \<and> length person_motion = length (timestamps apt)
      \<and> (\<forall>k<length (timestamps apt).
            person_motion ! k
              = (if \<exists>(s, e)\<in>set bursts. s \<le> int k \<and> int k < e then 1 else 0)))
   \<and> (1 \<le> min_duration apt \<longrightarrow> (\<exists>r. simulate_person_motion apt person g = Some r))"
proof (intro conjI impI)
  assume lo: "0 \<le> min_duration apt" and r1: "get_room1_state person = Some room1"
    and run: "map_option fst (simulate_person_motion apt person g)
                = Some (Inr (person_motion, bursts))"
  let ?n = "length (timestamps apt)"
  from run obtain g' where
    "motion_loop (prob_movement apt) (min_duration apt) (max_duration apt) ?n (Some room1) 0
       (replicate ?n 0) [] g = Some (Inr (person_motion, bursts), g')"
    by (auto simp: simulate_person_motion_def r1)
  from motion_loop_keeps_pass_inv[OF this lo pass_inv_init]
  have inv: "pass_inv (max_duration apt) ?n room1 (int ?n) person_motion bursts" .
  from inv show "\<forall>(s, e)\<in>set bursts.
         0 \<le> s \<and> s \<le> e \<and> e \<le> int (length (timestamps apt)) \<and> e - s \<le> max_duration apt
         \<and> nat s < length room1 \<and> room1 ! nat s \<noteq> 0"
    by (simp add: pass_inv_def bursts_ok_def)
  from inv show "sorted_wrt (\<lambda>b b'. snd b \<le> fst b') bursts"
    by (simp add: pass_inv_def bursts_ok_def)
  from inv show "length person_motion = length (timestamps apt)"
    by (simp add: pass_inv_def marks_bursts_def)
  from inv show "\<forall>k<length (timestamps apt).
            person_motion ! k
              = (if \<exists>(s, e)\<in>set bursts. s \<le> int k \<and> int k < e then 1 else 0)"
    by (simp add: pass_inv_def marks_bursts_def)
next
  assume "1 \<le> min_duration apt"
  then show "\<exists>r. simulate_person_motion apt person g = Some r"
    by (rule simulate_person_motion_terminates)
qed

theorem motion_bursts_bounded_and_disjoint_witness:
  "0 \<le> min_duration (jumpy\<lparr>min_duration := 1, max_duration := 2\<rparr>)
   \<and> 1 \<le> min_duration (jumpy\<lparr>min_duration := 1, max_duration := 2\<rparr>)
   \<and> get_room1_state (heap jumpy_home 0) = Some [1, 1, 1, 1, 1]
   \<and> map_option fst
        (simulate_person_motion (jumpy\<lparr>min_duration := 1, max_duration := 2\<rparr>)
           (heap jumpy_home 0) (np_random jumpy_home))
       = Some (Inr ([1, 1, 1, 1, 1], [(0, 2), (2, 3), (3, 5)]))
   \<and> sorted_wrt (\<lambda>b b'. snd b \<le> fst b') [(0, 2), (2, 3), (3, 5 :: int)]
   \<and> length [1, 1, 1, 1, 1 :: int]
       = length (timestamps (jumpy\<lparr>min_duration := 1, max_duration := 2\<rparr>))
   \<and> (\<exists>r. simulate_person_motion (jumpy\<lparr>min_duration := 1, max_duration := 2\<rparr>)
              (heap jumpy_home 0) (np_random jumpy_home) = Some r)"
proof -
  let ?apt = "jumpy\<lparr>min_duration := 1, max_duration := 2\<rparr>"
  have h0: "1 \<le> min_duration ?apt" by simp
  have h1: "0 \<le> min_duration ?apt" by simp
  have h2: "get_room1_state (heap jumpy_home 0) = Some [1, 1, 1, 1, 1]" by code_simp
  have h3: "map_option fst (simulate_person_motion ?apt (heap jumpy_home 0) (np_random jumpy_home))
       = Some (Inr ([1, 1, 1, 1, 1], [(0, 2), (2, 3), (3, 5)]))"
    by code_simp
  note inst = motion_bursts_bounded_and_disjoint[of ?apt "heap jumpy_home 0" "[1, 1, 1, 1, 1]"
             "np_random jumpy_home" "[1, 1, 1, 1, 1]" "[(0, 2), (2, 3), (3, 5)]"]
  from inst[THEN conjunct1, rule_format, OF h1 h2 h3]
  have a: "sorted_wrt (\<lambda>b b'. snd b \<le> fst b') [(0, 2), (2, 3), (3, 5 :: int)]
   \<and> length [1, 1, 1, 1, 1 :: int] = length (timestamps ?apt)"
    by blast
  from inst[THEN conjunct2, rule_format, OF h0]
  have b: "\<exists>r. simulate_person_motion ?apt (heap jumpy_home 0) (np_random jumpy_home) = Some r" .
  from a b h0 h1 h2 h3 show ?thesis by blast
qed

end
